theory Spec2Isabelle
  imports Complex_Main "HOL-Library.AList"
begin

section \<open>The high-resolution DEM generator of OmniLRS\<close>

text \<open>
  A shallow embedding of \<^verbatim>\<open>HighResDEMGen\<close>
  (\<^verbatim>\<open>src/terrain_management/large_scale_terrain/high_resolution_DEM_generator.py\<close>).

  Conventions of the model:
  \<^item> A Python \<^verbatim>\<open>float\<close> is an IEEE 754 binary64 number and every operation on
    floats rounds as the machine does; a Python \<^verbatim>\<open>int\<close> is an unbounded integer. A
    position handed to the module is a pair of numbers, each an \<^verbatim>\<open>int\<close> or a
    \<^verbatim>\<open>float\<close>.
  \<^item> \<^verbatim>\<open>resolution\<close> is a \<^verbatim>\<open>float\<close> and \<^verbatim>\<open>block_size\<close> an \<^verbatim>\<open>int\<close>, as in the
    configuration the module runs with (\<^verbatim>\<open>"resolution": 0.05\<close>,
    \<^verbatim>\<open>"block_size": 50\<close>), so block coordinates are Python ints.
  \<^item> The elevation samples of the buffer are kept as the rationals they denote. The module
    moves them, sets them to zero, and adds the rasters of the workers to them; no
    statement below depends on how that addition rounds.
  \<^item> A Python exception is a value \<open>Inl e\<close> of the result type.
  \<^item> A dictionary is an association list in insertion order; \<^verbatim>\<open>d[k] = v\<close> is
    \<open>AList.update k v d\<close> and \<^verbatim>\<open>d[k]\<close> is \<open>map_of d k\<close>, a missing key raising
    \<^verbatim>\<open>KeyError\<close>.
  \<^item> The per-block state dictionaries are objects that several dictionaries may refer
    to; they live in a store (a list, the reference being the index) and the tracker
    dictionaries hold references.
\<close>

datatype error = KeyError | IndexError | ValueError | ZeroDivisionError | OverflowError

subsection \<open>Two-dimensional arrays and basic slicing\<close>

text \<open>
  A 2D \<^verbatim>\<open>numpy\<close> array: its shape and its samples. Only the samples inside the shape
  are part of the array.
\<close>

record ndarray =
  shape0 :: nat
  shape1 :: nat
  cell :: "nat \<Rightarrow> nat \<Rightarrow> rat"

text \<open>
  A slice \<^verbatim>\<open>a:b\<close> of an axis of length \<open>n\<close>; \<open>None\<close> is an omitted bound. A negative
  bound counts from the end, and every bound is clipped to \<open>0..n\<close>.
\<close>

type_synonym slice = "int option \<times> int option"

definition slice_bound :: "nat \<Rightarrow> int \<Rightarrow> nat" where
  "slice_bound n i = (if i < 0 then nat (max 0 (i + int n)) else min (nat i) n)"

definition slice_start :: "nat \<Rightarrow> slice \<Rightarrow> nat" where
  "slice_start n s = (case fst s of None \<Rightarrow> 0 | Some i \<Rightarrow> slice_bound n i)"

definition slice_stop :: "nat \<Rightarrow> slice \<Rightarrow> nat" where
  "slice_stop n s = (case snd s of None \<Rightarrow> n | Some i \<Rightarrow> slice_bound n i)"

definition slice_len :: "nat \<Rightarrow> slice \<Rightarrow> nat" where
  "slice_len n s = slice_stop n s - slice_start n s"

definition in_slice :: "nat \<Rightarrow> slice \<Rightarrow> nat \<Rightarrow> bool" where
  "in_slice n s i = (slice_start n s \<le> i \<and> i < slice_stop n s)"

text \<open>\<^verbatim>\<open>a[sx, sy] = v\<close> for a scalar \<open>v\<close>.\<close>

definition fill_slice :: "ndarray \<Rightarrow> slice \<Rightarrow> slice \<Rightarrow> rat \<Rightarrow> ndarray" where
  "fill_slice a sx sy v =
     a\<lparr>cell := (\<lambda>i j. if in_slice (shape0 a) sx i \<and> in_slice (shape1 a) sy j
                       then v else cell a i j)\<rparr>"

text \<open>
  The source index that broadcasting pairs with target index \<open>i\<close>: an axis of length one
  is repeated, otherwise the offsets inside the two slices agree.
\<close>

definition src_index :: "nat \<Rightarrow> slice \<Rightarrow> slice \<Rightarrow> nat \<Rightarrow> nat" where
  "src_index n t s i =
     (if slice_len n s = 1 then slice_start n s
      else i - slice_start n t + slice_start n s)"

definition broadcastable :: "nat \<Rightarrow> nat \<Rightarrow> bool" where
  "broadcastable src tgt = (src = tgt \<or> src = 1)"

text \<open>
  \<^verbatim>\<open>a[tx, ty] = a[sx, sy]\<close>. The right-hand side is read before anything is written
  (\<^verbatim>\<open>numpy\<close> copies overlapping operands); shapes that do not broadcast raise
  \<^verbatim>\<open>ValueError\<close>.
\<close>

definition assign_slice ::
  "ndarray \<Rightarrow> slice \<Rightarrow> slice \<Rightarrow> slice \<Rightarrow> slice \<Rightarrow> error + ndarray" where
  "assign_slice a tx ty sx sy =
     (if broadcastable (slice_len (shape0 a) sx) (slice_len (shape0 a) tx)
        \<and> broadcastable (slice_len (shape1 a) sy) (slice_len (shape1 a) ty)
      then Inr (a\<lparr>cell := (\<lambda>i j.
              if in_slice (shape0 a) tx i \<and> in_slice (shape1 a) ty j
              then cell a (src_index (shape0 a) tx sx i) (src_index (shape1 a) ty sy j)
              else cell a i j)\<rparr>)
      else Inl ValueError)"

subsection \<open>\<^verbatim>\<open>shift_dem\<close>\<close>

text \<open>
  The bounds \<^verbatim>\<open>(min_s, max_s, min_t, max_t)\<close> that \<^verbatim>\<open>shift_dem\<close> computes for one
  axis of length \<open>n\<close> and the shift along it.
\<close>

definition shift_bounds :: "int \<Rightarrow> int \<Rightarrow> int \<times> int \<times> int \<times> int" where
  "shift_bounds n sh =
     (if sh > 0 then (0, - sh, sh, n)
      else if sh = 0 then (0, n, 0, n)
      else (- sh, n, 0, sh))"

definition shift_dem :: "int \<times> int \<Rightarrow> ndarray \<Rightarrow> error + ndarray" where
  "shift_dem pixel_shift d =
     (let x_shift = fst pixel_shift; y_shift = snd pixel_shift in
      if x_shift > int (shape0 d) \<or> y_shift > int (shape1 d)
      then Inr (fill_slice d (None, None) (None, None) 0)
      else
        (case shift_bounds (int (shape0 d)) x_shift of (x_min_s, x_max_s, x_min_t, x_max_t) \<Rightarrow>
        (case shift_bounds (int (shape1 d)) y_shift of (y_min_s, y_max_s, y_min_t, y_max_t) \<Rightarrow>
        (case assign_slice d (Some x_min_t, Some x_max_t) (Some y_min_t, Some y_max_t)
                             (Some x_min_s, Some x_max_s) (Some y_min_s, Some y_max_s) of
           Inl e \<Rightarrow> Inl e
         | Inr d1 \<Rightarrow>
             let d2 = (if x_shift < 0 then fill_slice d1 (Some x_max_t, None) (None, None) 0
                       else if x_shift > 0 then fill_slice d1 (None, Some x_min_t) (None, None) 0
                       else d1);
                 d3 = (if y_shift < 0 then fill_slice d2 (None, None) (Some y_max_t, None) 0
                       else if y_shift > 0 then fill_slice d2 (None, None) (None, Some y_min_t) 0
                       else d2)
             in Inr d3))))"

subsection \<open>Python helpers\<close>

text \<open>Sequencing of computations that may raise.\<close>

definition bind :: "error + 'a \<Rightarrow> ('a \<Rightarrow> error + 'b) \<Rightarrow> error + 'b" where
  "bind m f = (case m of Inl e \<Rightarrow> Inl e | Inr a \<Rightarrow> f a)"

text \<open>A \<^verbatim>\<open>for\<close> loop whose body updates the loop state or raises.\<close>

fun for_each :: "('a \<Rightarrow> 's \<Rightarrow> error + 's) \<Rightarrow> 'a list \<Rightarrow> 's \<Rightarrow> error + 's" where
  "for_each body [] s = Inr s"
| "for_each body (x # xs) s = bind (body x s) (for_each body xs)"

text \<open>A list comprehension whose element expression may raise.\<close>

fun comprehension :: "('a \<Rightarrow> error + 'b) \<Rightarrow> 'a list \<Rightarrow> error + 'b list" where
  "comprehension f [] = Inr []"
| "comprehension f (x # xs) =
     bind (f x) (\<lambda>v. bind (comprehension f xs) (\<lambda>vs. Inr (v # vs)))"

text \<open>\<^verbatim>\<open>d[k]\<close> on a dictionary.\<close>

definition getitem :: "('k \<times> 'v) list \<Rightarrow> 'k \<Rightarrow> error + 'v" where
  "getitem d k = (case map_of d k of None \<Rightarrow> Inl KeyError | Some v \<Rightarrow> Inr v)"

text \<open>
  One integer index into an axis of length \<open>n\<close>: \<open>-n..-1\<close> count from the end,
  anything outside \<open>-n..n-1\<close> raises \<^verbatim>\<open>IndexError\<close>.
\<close>

definition index_axis :: "nat \<Rightarrow> int \<Rightarrow> error + nat" where
  "index_axis n i =
     (if i < - int n \<or> int n \<le> i then Inl IndexError
      else Inr (nat (if i < 0 then i + int n else i)))"

text \<open>
  \<^verbatim>\<open>a[sx, sy] += data\<close>: \<open>data\<close> must broadcast to the shape of the slice.
\<close>

definition add_slice :: "ndarray \<Rightarrow> slice \<Rightarrow> slice \<Rightarrow> ndarray \<Rightarrow> error + ndarray" where
  "add_slice a sx sy data =
     (if broadcastable (shape0 data) (slice_len (shape0 a) sx)
        \<and> broadcastable (shape1 data) (slice_len (shape1 a) sy)
      then Inr (a\<lparr>cell := (\<lambda>i j.
              if in_slice (shape0 a) sx i \<and> in_slice (shape1 a) sy j
              then cell a i j
                   + cell data (if shape0 data = 1 then 0 else i - slice_start (shape0 a) sx)
                               (if shape1 data = 1 then 0 else j - slice_start (shape1 a) sy)
              else cell a i j)\<rparr>)
      else Inl ValueError)"

subsection \<open>Python numbers\<close>

text \<open>
  A Python \<^verbatim>\<open>float\<close> is an IEEE 754 binary64 number: a finite value (held as the
  rational it denotes), an infinity, or NaN. The sign of a zero is not kept: no operation
  that the module performs tells the two zeros apart.
\<close>

datatype float = Finite rat | PosInf | NegInf | NaN

text \<open>\<^verbatim>\<open>n.bit_length()\<close> for \<open>n \<ge> 0\<close>.\<close>

function bit_length :: "int \<Rightarrow> int" where
  "bit_length n = (if n \<le> 0 then 0 else 1 + bit_length (n div 2))"
  by pat_completeness auto

termination bit_length
  by (relation "measure nat") auto

declare bit_length.simps [simp del]

text \<open>\<open>2\<close> to the power of an integer.\<close>

definition pow2 :: "int \<Rightarrow> rat" where
  "pow2 k = (if 0 \<le> k then of_int (2 ^ nat k) else 1 / of_int (2 ^ nat (- k)))"

text \<open>For \<open>q > 0\<close>, the \<open>k\<close> with \<open>2 ^ k \<le> q < 2 ^ (k + 1)\<close>.\<close>

definition ilog2 :: "rat \<Rightarrow> int" where
  "ilog2 q =
     (case quotient_of q of (a, b) \<Rightarrow>
        let k = bit_length a - bit_length b
        in if pow2 k \<le> q then k else k - 1)"

text \<open>The integer nearest to \<open>q\<close>, a tie going to the even one.\<close>

definition round_half_even :: "rat \<Rightarrow> int" where
  "round_half_even q =
     (let f = \<lfloor>q\<rfloor>; r = q - of_int f
      in if r < 1 / 2 then f else if 1 / 2 < r then f + 1 else if even f then f else f + 1)"

text \<open>
  The binary64 number nearest to the rational \<open>q\<close> (round to nearest, ties to even): the
  significand \<open>m\<close> has 53 bits, the exponent \<open>e\<close> of its last bit is at least \<open>- 1074\<close>
  (gradual underflow), and the result is an infinity when the rounded magnitude
  \<open>m * 2 ^ e\<close> reaches \<open>2 ^ 1024\<close>. Every float operation returns its exact result rounded
  this way, and a float literal of the source, such as \<^verbatim>\<open>0.05\<close>, denotes
  \<open>double (1 / 20)\<close>.
\<close>

definition double :: "rat \<Rightarrow> float" where
  "double q =
     (if q = 0 then Finite 0
      else
        let e = max (ilog2 \<bar>q\<bar> - 52) (- 1074);
            m = round_half_even (\<bar>q\<bar> / pow2 e)
        in if 1024 < e + bit_length m then (if q < 0 then NegInf else PosInf)
           else Finite (if q < 0 then - (of_int m * pow2 e) else of_int m * pow2 e))"

text \<open>Truncation towards zero.\<close>

definition trunc :: "rat \<Rightarrow> int" where
  "trunc q = (if q < 0 then \<lceil>q\<rceil> else \<lfloor>q\<rfloor>)"

text \<open>The IEEE operations on floats.\<close>

fun fneg :: "float \<Rightarrow> float" where
  "fneg (Finite a) = Finite (- a)"
| "fneg PosInf = NegInf"
| "fneg NegInf = PosInf"
| "fneg NaN = NaN"

fun fadd :: "float \<Rightarrow> float \<Rightarrow> float" where
  "fadd (Finite a) (Finite b) = double (a + b)"
| "fadd (Finite a) PosInf = PosInf"
| "fadd (Finite a) NegInf = NegInf"
| "fadd PosInf (Finite b) = PosInf"
| "fadd NegInf (Finite b) = NegInf"
| "fadd PosInf PosInf = PosInf"
| "fadd NegInf NegInf = NegInf"
| "fadd PosInf NegInf = NaN"
| "fadd NegInf PosInf = NaN"
| "fadd NaN y = NaN"
| "fadd x NaN = NaN"

definition fsub :: "float \<Rightarrow> float \<Rightarrow> float" where
  "fsub x y = fadd x (fneg y)"

fun fmul :: "float \<Rightarrow> float \<Rightarrow> float" where
  "fmul (Finite a) (Finite b) = double (a * b)"
| "fmul (Finite a) PosInf = (if a = 0 then NaN else if a < 0 then NegInf else PosInf)"
| "fmul (Finite a) NegInf = (if a = 0 then NaN else if a < 0 then PosInf else NegInf)"
| "fmul PosInf (Finite b) = (if b = 0 then NaN else if b < 0 then NegInf else PosInf)"
| "fmul NegInf (Finite b) = (if b = 0 then NaN else if b < 0 then PosInf else NegInf)"
| "fmul PosInf PosInf = PosInf"
| "fmul NegInf NegInf = PosInf"
| "fmul PosInf NegInf = NegInf"
| "fmul NegInf PosInf = NegInf"
| "fmul NaN y = NaN"
| "fmul x NaN = NaN"

text \<open>
  Division by a divisor that is not zero. Python raises before it divides by zero, and the
  quotient by zero (an infinity whose sign is that of the zero, or NaN) is not modelled:
  it is NaN here.
\<close>

fun fdiv :: "float \<Rightarrow> float \<Rightarrow> float" where
  "fdiv (Finite a) (Finite b) = (if b = 0 then NaN else double (a / b))"
| "fdiv (Finite a) PosInf = Finite 0"
| "fdiv (Finite a) NegInf = Finite 0"
| "fdiv PosInf (Finite b) = (if b = 0 then NaN else if b < 0 then NegInf else PosInf)"
| "fdiv NegInf (Finite b) = (if b = 0 then NaN else if b < 0 then PosInf else NegInf)"
| "fdiv PosInf PosInf = NaN"
| "fdiv NegInf NegInf = NaN"
| "fdiv PosInf NegInf = NaN"
| "fdiv NegInf PosInf = NaN"
| "fdiv NaN y = NaN"
| "fdiv x NaN = NaN"

text \<open>\<open>x < y\<close> on floats: false as soon as one of them is NaN.\<close>

fun flt :: "float \<Rightarrow> float \<Rightarrow> bool" where
  "flt (Finite a) (Finite b) = (a < b)"
| "flt (Finite a) PosInf = True"
| "flt (Finite a) NegInf = False"
| "flt PosInf (Finite b) = False"
| "flt NegInf (Finite b) = True"
| "flt PosInf PosInf = False"
| "flt NegInf NegInf = False"
| "flt PosInf NegInf = False"
| "flt NegInf PosInf = True"
| "flt NaN y = False"
| "flt x NaN = False"

text \<open>The C library's \<^verbatim>\<open>floor\<close> and \<^verbatim>\<open>fmod\<close> (which is exact).\<close>

fun ffloor :: "float \<Rightarrow> float" where
  "ffloor (Finite a) = Finite (of_int \<lfloor>a\<rfloor>)"
| "ffloor PosInf = PosInf"
| "ffloor NegInf = NegInf"
| "ffloor NaN = NaN"

fun fmod :: "float \<Rightarrow> float \<Rightarrow> float" where
  "fmod (Finite a) (Finite b) = (if b = 0 then NaN else Finite (a - of_int (trunc (a / b)) * b))"
| "fmod (Finite a) PosInf = Finite a"
| "fmod (Finite a) NegInf = Finite a"
| "fmod (Finite a) NaN = NaN"
| "fmod PosInf y = NaN"
| "fmod NegInf y = NaN"
| "fmod NaN y = NaN"

text \<open>
  The quotient that CPython's \<^verbatim>\<open>_float_div_mod\<close> computes for \<^verbatim>\<open>vx // wx\<close>, \<open>wx\<close>
  not zero: the remainder \<open>md\<close> by \<^verbatim>\<open>fmod\<close>, the quotient \<open>(vx - md) / wx\<close>, lowered by
  one when the remainder is not zero and its sign is not that of the divisor, then
  snapped to the nearest integral value.
\<close>

definition float_div_mod :: "float \<Rightarrow> float \<Rightarrow> float" where
  "float_div_mod vx wx =
     (let md = fmod vx wx;
          dv0 = fdiv (fsub vx md) wx;
          dv = (if md \<noteq> Finite 0 \<and> flt wx (Finite 0) \<noteq> flt md (Finite 0)
                then fsub dv0 (Finite 1) else dv0)
      in if dv \<noteq> Finite 0
         then (let floordiv = ffloor dv
               in if flt (Finite (1 / 2)) (fsub dv floordiv) then fadd floordiv (Finite 1)
                  else floordiv)
         else Finite 0)"

text \<open>
  A number of the program is a Python \<^verbatim>\<open>int\<close> (unbounded) or a \<^verbatim>\<open>float\<close>.
\<close>

datatype number = PyInt int | PyFloat float

text \<open>
  The conversion of an \<^verbatim>\<open>int\<close> to \<^verbatim>\<open>float\<close>, which an operation between an
  \<^verbatim>\<open>int\<close> and a \<^verbatim>\<open>float\<close> applies to the \<^verbatim>\<open>int\<close>: correctly rounded, and
  \<^verbatim>\<open>OverflowError\<close> when the integer is too large.
\<close>

definition float_of_int :: "int \<Rightarrow> error + float" where
  "float_of_int n =
     (case double (of_int n) of Finite q \<Rightarrow> Inr (Finite q) | _ \<Rightarrow> Inl OverflowError)"

fun as_float :: "number \<Rightarrow> error + float" where
  "as_float (PyInt n) = float_of_int n"
| "as_float (PyFloat x) = Inr x"

text \<open>
  The operators \<^verbatim>\<open>+\<close>, \<^verbatim>\<open>-\<close>, \<^verbatim>\<open>*\<close>, \<^verbatim>\<open>/\<close> and \<^verbatim>\<open>//\<close>, and \<^verbatim>\<open>int()\<close>.
  Between two \<^verbatim>\<open>int\<close>s, \<^verbatim>\<open>+\<close>, \<^verbatim>\<open>-\<close>, \<^verbatim>\<open>*\<close> and \<^verbatim>\<open>//\<close> are exact and
  \<^verbatim>\<open>/\<close> is the correctly rounded quotient; otherwise both operands are taken as
  floats. A zero divisor raises \<^verbatim>\<open>ZeroDivisionError\<close>; \<^verbatim>\<open>int()\<close> truncates towards
  zero and raises \<^verbatim>\<open>OverflowError\<close> on an infinity and \<^verbatim>\<open>ValueError\<close> on NaN.
\<close>

fun py_add :: "number \<Rightarrow> number \<Rightarrow> error + number" where
  "py_add (PyInt m) (PyInt n) = Inr (PyInt (m + n))"
| "py_add a b = bind (as_float a) (\<lambda>x. bind (as_float b) (\<lambda>y. Inr (PyFloat (fadd x y))))"

fun py_sub :: "number \<Rightarrow> number \<Rightarrow> error + number" where
  "py_sub (PyInt m) (PyInt n) = Inr (PyInt (m - n))"
| "py_sub a b = bind (as_float a) (\<lambda>x. bind (as_float b) (\<lambda>y. Inr (PyFloat (fsub x y))))"

fun py_mul :: "number \<Rightarrow> number \<Rightarrow> error + number" where
  "py_mul (PyInt m) (PyInt n) = Inr (PyInt (m * n))"
| "py_mul a b = bind (as_float a) (\<lambda>x. bind (as_float b) (\<lambda>y. Inr (PyFloat (fmul x y))))"

fun py_truediv :: "number \<Rightarrow> number \<Rightarrow> error + number" where
  "py_truediv (PyInt m) (PyInt n) =
     (if n = 0 then Inl ZeroDivisionError
      else (case double (of_int m / of_int n) of
              Finite q \<Rightarrow> Inr (PyFloat (Finite q))
            | _ \<Rightarrow> Inl OverflowError))"
| "py_truediv a b =
     bind (as_float a) (\<lambda>x. bind (as_float b) (\<lambda>y.
       if y = Finite 0 then Inl ZeroDivisionError else Inr (PyFloat (fdiv x y))))"

fun py_floordiv :: "number \<Rightarrow> number \<Rightarrow> error + number" where
  "py_floordiv (PyInt m) (PyInt n) =
     (if n = 0 then Inl ZeroDivisionError else Inr (PyInt (m div n)))"
| "py_floordiv a b =
     bind (as_float a) (\<lambda>x. bind (as_float b) (\<lambda>y.
       if y = Finite 0 then Inl ZeroDivisionError else Inr (PyFloat (float_div_mod x y))))"

fun py_int :: "number \<Rightarrow> error + int" where
  "py_int (PyInt n) = Inr n"
| "py_int (PyFloat (Finite q)) = Inr (trunc q)"
| "py_int (PyFloat PosInf) = Inl OverflowError"
| "py_int (PyFloat NegInf) = Inl OverflowError"
| "py_int (PyFloat NaN) = Inl ValueError"

subsection \<open>Configuration and state\<close>

text \<open>The fields of \<^verbatim>\<open>HighResDEMCfg\<close> that the modelled methods read.\<close>

record HighResDEMCfg =
  num_blocks :: int
  block_size :: int
  resolution :: float
  generate_craters :: bool

text \<open>The state dictionary of one block.\<close>

record BlockState =
  has_crater_metadata :: bool
  has_crater_data :: bool
  has_terrain_data :: bool
  is_padding :: bool

type_synonym coord = "int \<times> int"

text \<open>
  The attributes of a \<^verbatim>\<open>HighResDEMGen\<close> object. \<open>store\<close> holds the block state
  objects; \<open>block_grid_tracker\<close> maps a relative slot to a reference into it. The two
  queues are the coordinates handed to \<^verbatim>\<open>process_data\<close> of the two worker managers
  (their payloads and the workers are outside this module).
\<close>

record HighResDEMGen =
  settings :: HighResDEMCfg
  current_block_coord :: coord
  sim_is_warm :: bool
  block_grid_tracker :: "(coord \<times> nat) list"
  map_grid_block2coords :: "(coord \<times> coord) list"
  store :: "BlockState list"
  high_res_dem :: ndarray
  crater_builder_queue :: "coord list"
  interpolator_queue :: "coord list"

type_synonym grid = "(coord \<times> nat) list \<times> (coord \<times> coord) list \<times> BlockState list"

subsection \<open>The block grid\<close>

text \<open>\<^verbatim>\<open>range(-num_blocks - 1, num_blocks + 2, 1)\<close>\<close>

definition grid_range :: "HighResDEMCfg \<Rightarrow> int list" where
  "grid_range cfg = [- num_blocks cfg - 1 .. num_blocks cfg + 1]"

text \<open>The pairs \<open>(x, y)\<close> in the order the two nested loops visit them.\<close>

definition grid_cells :: "HighResDEMCfg \<Rightarrow> (int \<times> int) list" where
  "grid_cells cfg = List.product (grid_range cfg) (grid_range cfg)"

text \<open>The state of a block that has no data yet.\<close>

definition empty_state :: "HighResDEMCfg \<Rightarrow> BlockState" where
  "empty_state cfg =
     \<lparr>has_crater_metadata = \<not> generate_craters cfg,
      has_crater_data = \<not> generate_craters cfg,
      has_terrain_data = False,
      is_padding = False\<rparr>"

text \<open>\<^verbatim>\<open>tracker[k]["is_padding"] = v\<close>\<close>

definition set_is_padding ::
  "(coord \<times> nat) list \<Rightarrow> BlockState list \<Rightarrow> coord \<Rightarrow> bool \<Rightarrow> error + BlockState list" where
  "set_is_padding tracker st k v =
     bind (getitem tracker k) (\<lambda>r. Inr (st[r := (st ! r)\<lparr>is_padding := v\<rparr>]))"

text \<open>
  The \<^verbatim>\<open>if/elif/else\<close> that ends the loop body of both \<^verbatim>\<open>build_block_grid\<close> and
  \<^verbatim>\<open>shift_block_grid\<close>; \<open>tracker\<close> is the dictionary \<^verbatim>\<open>self.block_grid_tracker\<close>
  at that moment.
\<close>

definition mark_padding ::
  "HighResDEMCfg \<Rightarrow> (coord \<times> nat) list \<Rightarrow> BlockState list \<Rightarrow> int \<times> int \<Rightarrow> coord
     \<Rightarrow> error + BlockState list" where
  "mark_padding cfg tracker st xy k =
     (if fst xy = - num_blocks cfg - 1 \<or> fst xy = num_blocks cfg + 1
      then set_is_padding tracker st k True
      else if snd xy = - num_blocks cfg - 1 \<or> snd xy = num_blocks cfg + 1
      then set_is_padding tracker st k True
      else set_is_padding tracker st k False)"

text \<open>
  The loop body of \<^verbatim>\<open>build_block_grid\<close>. \<^verbatim>\<open>copy.copy(state)\<close> allocates a new
  object.
\<close>

definition build_cell :: "HighResDEMCfg \<Rightarrow> coord \<Rightarrow> int \<times> int \<Rightarrow> grid \<Rightarrow> error + grid" where
  "build_cell cfg center xy g =
     (case g of (tracker, mp, st) \<Rightarrow>
        let x_c = fst xy * block_size cfg; x_i = x_c + fst center;
            y_c = snd xy * block_size cfg; y_i = y_c + snd center;
            tracker1 = AList.update (x_c, y_c) (length st) tracker;
            st1 = st @ [empty_state cfg]
        in bind (mark_padding cfg tracker1 st1 xy (x_c, y_c))
             (\<lambda>st2. Inr (tracker1, AList.update (x_i, y_i) (x_c, y_c) mp, st2)))"

definition build_block_grid :: "HighResDEMGen \<Rightarrow> error + HighResDEMGen" where
  "build_block_grid s =
     bind (for_each (build_cell (settings s) (current_block_coord s))
                    (grid_cells (settings s)) ([], [], store s))
       (\<lambda>g. case g of (tracker, mp, st) \<Rightarrow>
          Inr (s\<lparr>block_grid_tracker := tracker, map_grid_block2coords := mp, store := st\<rparr>))"

text \<open>
  The loop body of \<^verbatim>\<open>shift_block_grid\<close>. \<open>old_tracker\<close> and \<open>old_map\<close> are
  \<^verbatim>\<open>self.block_grid_tracker\<close> and \<^verbatim>\<open>self.map_grid_block2coords\<close>, which the loop
  does not rebind; the padding flag is written through \<open>old_tracker\<close>, as in the source.
\<close>

definition shift_cell ::
  "HighResDEMCfg \<Rightarrow> (coord \<times> nat) list \<Rightarrow> (coord \<times> coord) list \<Rightarrow> coord \<Rightarrow> int \<times> int
     \<Rightarrow> grid \<Rightarrow> error + grid" where
  "shift_cell cfg old_tracker old_map coordinates xy g =
     (case g of (new_tracker, new_map, st) \<Rightarrow>
        let x_c = fst xy * block_size cfg; x_i = x_c + fst coordinates;
            y_c = snd xy * block_size cfg; y_i = y_c + snd coordinates
        in bind (case map_of old_map (x_i, y_i) of
                   None \<Rightarrow> Inr (AList.update (x_c, y_c) (length st) new_tracker,
                                 st @ [empty_state cfg])
                 | Some c2 \<Rightarrow>
                     bind (getitem old_tracker c2)
                       (\<lambda>r. Inr (AList.update (x_c, y_c) r new_tracker, st)))
             (\<lambda>(new_tracker1, st1).
                bind (mark_padding cfg old_tracker st1 xy (x_c, y_c))
                  (\<lambda>st2. Inr (new_tracker1,
                               AList.update (x_i, y_i) (x_c, y_c) new_map, st2))))"

definition shift_block_grid :: "coord \<Rightarrow> HighResDEMGen \<Rightarrow> error + HighResDEMGen" where
  "shift_block_grid coordinates s =
     bind (for_each (shift_cell (settings s) (block_grid_tracker s) (map_grid_block2coords s)
                       coordinates)
                    (grid_cells (settings s)) ([], [], store s))
       (\<lambda>g. case g of (tracker, mp, st) \<Rightarrow>
          Inr (s\<lparr>block_grid_tracker := tracker, map_grid_block2coords := mp, store := st\<rparr>))"

subsection \<open>Construction\<close>

text \<open>
  \<^verbatim>\<open>np.zeros((n0, n1))\<close>, each side being
  \<^verbatim>\<open>int((num_blocks * 2 + 3) * block_size / resolution)\<close>; a negative dimension raises
  \<^verbatim>\<open>ValueError\<close>.
\<close>

definition instantiate_high_res_dem :: "HighResDEMGen \<Rightarrow> error + HighResDEMGen" where
  "instantiate_high_res_dem s =
     (let cfg = settings s in
      bind (py_truediv (PyInt ((num_blocks cfg * 2 + 3) * block_size cfg))
              (PyFloat (resolution cfg))) (\<lambda>q0.
      bind (py_int q0) (\<lambda>n0.
      bind (py_truediv (PyInt ((num_blocks cfg * 2 + 3) * block_size cfg))
              (PyFloat (resolution cfg))) (\<lambda>q1.
      bind (py_int q1) (\<lambda>n1.
      if n0 < 0 \<or> n1 < 0 then Inl ValueError
      else Inr (s\<lparr>high_res_dem :=
                    \<lparr>shape0 = nat n0, shape1 = nat n1, cell = (\<lambda>i j. 0)\<rparr>\<rparr>))))))"

text \<open>
  \<^verbatim>\<open>__init__\<close> followed by the part of \<^verbatim>\<open>build\<close> that touches the modelled
  attributes: \<^verbatim>\<open>build_block_grid\<close>, then \<^verbatim>\<open>instantiate_high_res_dem\<close>.
\<close>

definition init :: "HighResDEMCfg \<Rightarrow> error + HighResDEMGen" where
  "init cfg =
     bind (build_block_grid
             \<lparr>settings = cfg, current_block_coord = (0, 0), sim_is_warm = False,
              block_grid_tracker = [], map_grid_block2coords = [], store = [],
              high_res_dem = \<lparr>shape0 = 0, shape1 = 0, cell = (\<lambda>i j. 0)\<rparr>,
              crater_builder_queue = [], interpolator_queue = []\<rparr>)
       instantiate_high_res_dem"

subsection \<open>Shifting the window\<close>

text \<open>\<^verbatim>\<open>int(x // block_size) * block_size\<close> on each axis.\<close>

definition cast_coordinates_to_block_space ::
  "HighResDEMCfg \<Rightarrow> number \<times> number \<Rightarrow> error + coord" where
  "cast_coordinates_to_block_space cfg coordinates =
     bind (py_floordiv (fst coordinates) (PyInt (block_size cfg))) (\<lambda>qx.
     bind (py_int qx) (\<lambda>nx.
     bind (py_floordiv (snd coordinates) (PyInt (block_size cfg))) (\<lambda>qy.
     bind (py_int qy) (\<lambda>ny.
     Inr (nx * block_size cfg, ny * block_size cfg)))))"

text \<open>
  The \<^verbatim>\<open>pixel_shift\<close> that \<^verbatim>\<open>shift\<close> computes from the new and the current block
  coordinate: \<^verbatim>\<open>-int(delta / resolution)\<close> on each axis.
\<close>

definition pixel_shift_of :: "HighResDEMCfg \<Rightarrow> coord \<Rightarrow> coord \<Rightarrow> error + int \<times> int" where
  "pixel_shift_of cfg new_block_coord cur =
     (let delta_coord = (fst new_block_coord - fst cur, snd new_block_coord - snd cur) in
      bind (py_truediv (PyInt (fst delta_coord)) (PyFloat (resolution cfg))) (\<lambda>qx.
      bind (py_int qx) (\<lambda>nx.
      bind (py_truediv (PyInt (snd delta_coord)) (PyFloat (resolution cfg))) (\<lambda>qy.
      bind (py_int qy) (\<lambda>ny.
      Inr (- nx, - ny))))))"

text \<open>\<^verbatim>\<open>tracker[k]["has_crater_metadata"] = v\<close>, and the same for the other two flags.\<close>

definition set_has_crater_metadata ::
  "(coord \<times> nat) list \<Rightarrow> BlockState list \<Rightarrow> coord \<Rightarrow> bool \<Rightarrow> error + BlockState list" where
  "set_has_crater_metadata tracker st k v =
     bind (getitem tracker k) (\<lambda>r. Inr (st[r := (st ! r)\<lparr>has_crater_metadata := v\<rparr>]))"

definition set_has_crater_data ::
  "(coord \<times> nat) list \<Rightarrow> BlockState list \<Rightarrow> coord \<Rightarrow> bool \<Rightarrow> error + BlockState list" where
  "set_has_crater_data tracker st k v =
     bind (getitem tracker k) (\<lambda>r. Inr (st[r := (st ! r)\<lparr>has_crater_data := v\<rparr>]))"

definition set_has_terrain_data ::
  "(coord \<times> nat) list \<Rightarrow> BlockState list \<Rightarrow> coord \<Rightarrow> bool \<Rightarrow> error + BlockState list" where
  "set_has_terrain_data tracker st k v =
     bind (getitem tracker k) (\<lambda>r. Inr (st[r := (st ! r)\<lparr>has_terrain_data := v\<rparr>]))"

text \<open>\<^verbatim>\<open>tracker[k]\<close> dereferenced.\<close>

definition block_state ::
  "(coord \<times> nat) list \<Rightarrow> BlockState list \<Rightarrow> coord \<Rightarrow> error + BlockState" where
  "block_state tracker st k = bind (getitem tracker k) (\<lambda>r. Inr (st ! r))"

text \<open>
  \<^verbatim>\<open>generate_craters_metadata\<close>. The crater database and its sampler are outside this
  module: \<open>check_block_exists\<close> is the database's answer after
  \<^verbatim>\<open>sample_craters_by_region\<close> has run.
\<close>

definition generate_craters_metadata ::
  "(coord \<Rightarrow> bool) \<Rightarrow> HighResDEMGen \<Rightarrow> error + HighResDEMGen" where
  "generate_craters_metadata check_block_exists s =
     bind (for_each
             (\<lambda>coords st.
                bind (getitem (map_grid_block2coords s) coords)
                  (\<lambda>local_coords.
                     if check_block_exists coords
                     then set_has_crater_metadata (block_grid_tracker s) st local_coords True
                     else set_has_crater_metadata (block_grid_tracker s) st local_coords False))
             (map fst (map_grid_block2coords s)) (store s))
       (\<lambda>st. Inr (s\<lparr>store := st\<rparr>))"

text \<open>
  \<^verbatim>\<open>generate_terrain_blocks\<close>: the coordinates submitted to the two worker managers.
\<close>

definition generate_terrain_blocks :: "HighResDEMGen \<Rightarrow> error + HighResDEMGen" where
  "generate_terrain_blocks s =
     bind (for_each
             (\<lambda>grid_key q.
                bind (getitem (map_grid_block2coords s) grid_key)
                  (\<lambda>grid_coords.
                     bind (block_state (block_grid_tracker s) (store s) grid_coords)
                       (\<lambda>b. Inr (if \<not> has_crater_data b then fst q @ [grid_key] else fst q,
                                  if \<not> has_terrain_data b then snd q @ [grid_key] else snd q))))
             (map fst (map_grid_block2coords s))
             (crater_builder_queue s, interpolator_queue s))
       (\<lambda>q. Inr (s\<lparr>crater_builder_queue := fst q, interpolator_queue := snd q\<rparr>))"

definition shift ::
  "(coord \<Rightarrow> bool) \<Rightarrow> number \<times> number \<Rightarrow> HighResDEMGen \<Rightarrow> error + HighResDEMGen" where
  "shift check_block_exists coordinates s =
     bind (cast_coordinates_to_block_space (settings s) coordinates) (\<lambda>new_block_coord.
     bind (pixel_shift_of (settings s) new_block_coord (current_block_coord s)) (\<lambda>pixel_shift.
     bind (shift_block_grid new_block_coord s) (\<lambda>s1.
     bind (shift_dem pixel_shift (high_res_dem s1)) (\<lambda>d.
     bind (if generate_craters (settings s1)
           then generate_craters_metadata check_block_exists
                  (s1\<lparr>high_res_dem := d, current_block_coord := new_block_coord\<rparr>)
           else Inr (s1\<lparr>high_res_dem := d, current_block_coord := new_block_coord\<rparr>))
       generate_terrain_blocks))))"

text \<open>
  \<^verbatim>\<open>update_high_res_dem\<close>. The thread it starts runs \<^verbatim>\<open>collect_terrain_data\<close>
  repeatedly; those runs are separate steps of the model.
\<close>

definition update_high_res_dem ::
  "(coord \<Rightarrow> bool) \<Rightarrow> number \<times> number \<Rightarrow> HighResDEMGen
     \<Rightarrow> error + bool \<times> HighResDEMGen" where
  "update_high_res_dem check_block_exists coords s =
     bind (cast_coordinates_to_block_space (settings s) coords) (\<lambda>block_coordinates.
     bind (if \<not> sim_is_warm s
           then bind (shift check_block_exists
                        (PyInt (fst block_coordinates), PyInt (snd block_coordinates)) s)
                  (\<lambda>s1. Inr (True, s1\<lparr>sim_is_warm := True\<rparr>))
           else Inr (False, s)) (\<lambda>us.
     if current_block_coord (snd us) \<noteq> block_coordinates
     then bind (shift check_block_exists coords (snd us)) (\<lambda>s2. Inr (True, s2))
     else Inr us))"

subsection \<open>Queries\<close>

text \<open>
  \<^verbatim>\<open>get_coordinates\<close>: on each axis
  \<^verbatim>\<open>coordinates + (shape // 2) * resolution - current_block_coord - block_size // 2\<close>,
  the operations being applied in that order.
\<close>

definition get_coordinates :: "HighResDEMGen \<Rightarrow> number \<times> number \<Rightarrow> error + number \<times> number" where
  "get_coordinates s coordinates =
     bind (py_mul (PyInt (int (shape0 (high_res_dem s)) div 2))
             (PyFloat (resolution (settings s)))) (\<lambda>hx.
     bind (py_add (fst coordinates) hx) (\<lambda>x1.
     bind (py_sub x1 (PyInt (fst (current_block_coord s)))) (\<lambda>x2.
     bind (py_sub x2 (PyInt (block_size (settings s) div 2))) (\<lambda>x.
     bind (py_mul (PyInt (int (shape1 (high_res_dem s)) div 2))
             (PyFloat (resolution (settings s)))) (\<lambda>hy.
     bind (py_add (snd coordinates) hy) (\<lambda>y1.
     bind (py_sub y1 (PyInt (snd (current_block_coord s)))) (\<lambda>y2.
     bind (py_sub y2 (PyInt (block_size (settings s) div 2))) (\<lambda>y.
     Inr (x, y)))))))))"

text \<open>The pair \<^verbatim>\<open>(int(x), int(y))\<close> that \<^verbatim>\<open>get_height\<close> indexes the buffer with.\<close>

definition get_pixel :: "HighResDEMGen \<Rightarrow> number \<times> number \<Rightarrow> error + int \<times> int" where
  "get_pixel s coordinates =
     bind (get_coordinates s coordinates) (\<lambda>local_coordinates.
     bind (py_truediv (fst local_coordinates) (PyFloat (resolution (settings s)))) (\<lambda>x.
     bind (py_truediv (snd local_coordinates) (PyFloat (resolution (settings s)))) (\<lambda>y.
     bind (py_int x) (\<lambda>i.
     bind (py_int y) (\<lambda>j.
     Inr (i, j))))))"

definition get_height :: "HighResDEMGen \<Rightarrow> number \<times> number \<Rightarrow> error + rat" where
  "get_height s coordinates =
     bind (get_pixel s coordinates) (\<lambda>px.
     bind (index_axis (shape0 (high_res_dem s)) (fst px)) (\<lambda>i.
     bind (index_axis (shape1 (high_res_dem s)) (snd px)) (\<lambda>j.
     Inr (cell (high_res_dem s) i j))))"

definition is_map_done :: "HighResDEMGen \<Rightarrow> error + bool" where
  "is_map_done s =
     bind (comprehension
             (\<lambda>coords.
                bind (block_state (block_grid_tracker s) (store s) coords)
                  (\<lambda>b. Inr (has_crater_metadata b \<and> has_crater_data b \<and> has_terrain_data b)))
             (map snd (map_grid_block2coords s)))
       (\<lambda>flags. Inr (list_all (\<lambda>f. f) flags))"

subsection \<open>Collecting worker results\<close>

text \<open>
  The body shared by the two loops of \<^verbatim>\<open>collect_terrain_data\<close>: add the block's
  raster to the buffer, then set the flag with \<open>set_flag\<close>.
\<close>

definition collect_block ::
  "((coord \<times> nat) list \<Rightarrow> BlockState list \<Rightarrow> coord \<Rightarrow> bool \<Rightarrow> error + BlockState list)
     \<Rightarrow> int \<Rightarrow> coord \<times> ndarray \<Rightarrow> HighResDEMGen \<Rightarrow> error + HighResDEMGen" where
  "collect_block set_flag offset res s =
     (let cfg = settings s in
      bind (getitem (map_grid_block2coords s) (fst res)) (\<lambda>local_coords.
      let x_c = fst local_coords; y_c = snd local_coords in
      bind (py_truediv (PyInt x_c) (PyFloat (resolution cfg))) (\<lambda>qx0.
      bind (py_int qx0) (\<lambda>x0.
      bind (py_truediv (PyInt (x_c + block_size cfg)) (PyFloat (resolution cfg))) (\<lambda>qx1.
      bind (py_int qx1) (\<lambda>x1.
      bind (py_truediv (PyInt y_c) (PyFloat (resolution cfg))) (\<lambda>qy0.
      bind (py_int qy0) (\<lambda>y0.
      bind (py_truediv (PyInt (y_c + block_size cfg)) (PyFloat (resolution cfg))) (\<lambda>qy1.
      bind (py_int qy1) (\<lambda>y1.
      bind (add_slice (high_res_dem s)
              (Some (x0 + offset), Some (x1 + offset))
              (Some (y0 + offset), Some (y1 + offset))
              (snd res)) (\<lambda>d.
      bind (set_flag (block_grid_tracker s) (store s) local_coords True) (\<lambda>st.
      Inr (s\<lparr>high_res_dem := d, store := st\<rparr>)))))))))))))"

text \<open>
  \<^verbatim>\<open>collect_terrain_data\<close>; \<open>crater_results\<close> and \<open>terrain_results\<close> are what the
  two \<^verbatim>\<open>collect_results()\<close> calls return (for a crater result, the raster is
  \<^verbatim>\<open>data[0]\<close>). The offset is
  \<^verbatim>\<open>int((num_blocks + 1) * block_size / resolution)\<close>.
\<close>

definition collect_terrain_data ::
  "(coord \<times> ndarray) list \<Rightarrow> (coord \<times> ndarray) list \<Rightarrow> HighResDEMGen
     \<Rightarrow> error + HighResDEMGen" where
  "collect_terrain_data crater_results terrain_results s =
     (let cfg = settings s in
      bind (py_truediv (PyInt ((num_blocks cfg + 1) * block_size cfg))
              (PyFloat (resolution cfg))) (\<lambda>q.
      bind (py_int q) (\<lambda>offset.
      bind (for_each (collect_block set_has_crater_data offset) crater_results s)
        (for_each (collect_block set_has_terrain_data offset) terrain_results))))"

subsection \<open>Reachable states\<close>

text \<open>
  The states a \<^verbatim>\<open>HighResDEMGen\<close> object goes through: construction, then any
  sequence of the calls that change it, each returning normally.
\<close>

inductive reachable :: "HighResDEMGen \<Rightarrow> bool" where
  r_init: "init cfg = Inr s \<Longrightarrow> reachable s"
| r_update: "reachable s \<Longrightarrow> update_high_res_dem db p s = Inr (u, s') \<Longrightarrow> reachable s'"
| r_shift: "reachable s \<Longrightarrow> shift db p s = Inr s' \<Longrightarrow> reachable s'"
| r_collect: "reachable s \<Longrightarrow> collect_terrain_data cr tr s = Inr s' \<Longrightarrow> reachable s'"

subsection \<open>Auxiliary notions for the statements\<close>

text \<open>
  What a sample of the buffer should be after a shift by \<open>sh\<close> pixels: the old sample
  \<open>sh\<close> pixels back if that one exists, zero otherwise.
\<close>

definition shifted_cell :: "ndarray \<Rightarrow> int \<times> int \<Rightarrow> nat \<Rightarrow> nat \<Rightarrow> rat" where
  "shifted_cell d sh i j =
     (if 0 \<le> int i - fst sh \<and> int i - fst sh < int (shape0 d)
        \<and> 0 \<le> int j - snd sh \<and> int j - snd sh < int (shape1 d)
      then cell d (nat (int i - fst sh)) (nat (int j - snd sh)) else 0)"

text \<open>The relative slot and the absolute block coordinate of grid position \<open>xy\<close>.\<close>

definition slot_of :: "HighResDEMCfg \<Rightarrow> int \<times> int \<Rightarrow> coord" where
  "slot_of cfg xy = (fst xy * block_size cfg, snd xy * block_size cfg)"

definition abs_of :: "HighResDEMCfg \<Rightarrow> coord \<Rightarrow> int \<times> int \<Rightarrow> coord" where
  "abs_of cfg center xy =
     (fst xy * block_size cfg + fst center, snd xy * block_size cfg + snd center)"

text \<open>Grid position \<open>xy\<close> lies in the outermost ring.\<close>

definition on_ring :: "HighResDEMCfg \<Rightarrow> int \<times> int \<Rightarrow> bool" where
  "on_ring cfg xy =
     (\<bar>fst xy\<bar> = num_blocks cfg + 1 \<or> \<bar>snd xy\<bar> = num_blocks cfg + 1)"

text \<open>Two block states carry the same three readiness flags.\<close>

definition same_readiness :: "BlockState \<Rightarrow> BlockState \<Rightarrow> bool" where
  "same_readiness a b =
     (has_crater_metadata a = has_crater_metadata b
      \<and> has_crater_data a = has_crater_data b
      \<and> has_terrain_data a = has_terrain_data b)"

definition block_ready :: "BlockState \<Rightarrow> bool" where
  "block_ready b = (has_crater_metadata b \<and> has_crater_data b \<and> has_terrain_data b)"

text \<open>
  The grid of a state is the window around \<open>center\<close>: the absolute-to-relative map holds
  exactly the pairs of the window (each key once), the tracker has exactly the window's slots, and every
  reference of the tracker points into the store.
\<close>

definition grid_wf :: "HighResDEMGen \<Rightarrow> coord \<Rightarrow> bool" where
  "grid_wf s center =
     ((\<forall>k v. map_of (map_grid_block2coords s) k = Some v \<longleftrightarrow>
              (\<exists>xy \<in> set (grid_cells (settings s)).
                  k = abs_of (settings s) center xy \<and> v = slot_of (settings s) xy))
      \<and> fst ` set (block_grid_tracker s) = slot_of (settings s) ` set (grid_cells (settings s))
      \<and> (\<forall>k r. map_of (block_grid_tracker s) k = Some r \<longrightarrow> r < length (store s))
      \<and> distinct (map fst (map_grid_block2coords s)))"

text \<open>
  What holds of the loop state of \<^verbatim>\<open>shift_block_grid\<close> once the grid positions \<open>cs\<close>
  have been visited, \<open>st0\<close> being the store before the loop.
\<close>

definition shift_inv ::
  "HighResDEMCfg \<Rightarrow> (coord \<times> nat) list \<Rightarrow> (coord \<times> coord) list \<Rightarrow> coord \<Rightarrow> BlockState list
     \<Rightarrow> (int \<times> int) list \<Rightarrow> grid \<Rightarrow> bool" where
  "shift_inv cfg old_tracker old_map c st0 cs g =
     (case g of (ntr, nmp, st) \<Rightarrow>
        (\<forall>k v. map_of nmp k = Some v \<longleftrightarrow>
                (\<exists>xy \<in> set cs. k = abs_of cfg c xy \<and> v = slot_of cfg xy))
        \<and> fst ` set ntr = slot_of cfg ` set cs
        \<and> (\<forall>xy \<in> set cs.
              case map_of old_map (abs_of cfg c xy) of
                Some k2 \<Rightarrow> map_of ntr (slot_of cfg xy) = map_of old_tracker k2
              | None \<Rightarrow> (\<exists>r. map_of ntr (slot_of cfg xy) = Some r
                             \<and> length st0 \<le> r \<and> r < length st))
        \<and> length st0 \<le> length st
        \<and> (\<forall>r < length st0. same_readiness (st ! r) (st0 ! r))
        \<and> (\<forall>r. length st0 \<le> r \<and> r < length st \<longrightarrow> st ! r = empty_state cfg)
        \<and> distinct (map fst nmp))"


text \<open>
  State \<open>s'\<close> differs from \<open>s\<close> at most in the buffer, the queues and the contents of
  the stored block states.
\<close>

definition frame_ok :: "HighResDEMGen \<Rightarrow> HighResDEMGen \<Rightarrow> bool" where
  "frame_ok s s' = (settings s' = settings s \<and> block_grid_tracker s' = block_grid_tracker s
         \<and> map_grid_block2coords s' = map_grid_block2coords s
         \<and> current_block_coord s' = current_block_coord s
         \<and> sim_is_warm s' = sim_is_warm s
         \<and> length (store s') = length (store s))"

subsection \<open>An example configuration\<close>

text \<open>
  A window of radius zero (one usable block and its padding ring) with the block size and
  the resolution of the configuration in the module's \<^verbatim>\<open>__main__\<close>, craters disabled.
  The buffer has \<open>3 * 50 / 0.05 = 3000\<close> samples per side.
\<close>

definition example_cfg :: HighResDEMCfg where
  "example_cfg =
     \<lparr>num_blocks = 0, block_size = 50, resolution = double (1 / 20), generate_craters = False\<rparr>"

text \<open>The crater database is not consulted when craters are disabled.\<close>

definition no_db :: "coord \<Rightarrow> bool" where
  "no_db c = False"

text \<open>
  The absolute-to-relative map of \<open>s\<close> is a bijection between its keys and the slots of
  the tracker, and every key is its slot moved by \<open>center\<close>.
\<close>

definition grid_bijection :: "HighResDEMGen \<Rightarrow> coord \<Rightarrow> bool" where
  "grid_bijection s center =
     ((\<forall>slot \<in> fst ` set (block_grid_tracker s).
          \<exists>!k. map_of (map_grid_block2coords s) k = Some slot)
      \<and> (\<forall>k \<in> fst ` set (map_grid_block2coords s).
            \<exists>slot \<in> fst ` set (block_grid_tracker s).
               map_of (map_grid_block2coords s) k = Some slot)
      \<and> (\<forall>k slot. map_of (map_grid_block2coords s) k = Some slot \<longrightarrow>
            k = (fst slot + fst center, snd slot + snd center)))"

text \<open>
  The freshly constructed object of the example, and the same object after its window
  has moved one block along the first axis.
\<close>

definition example_state :: HighResDEMGen where
  "example_state = projr (init example_cfg)"

definition example_shifted :: HighResDEMGen where
  "example_shifted = projr (shift no_db (PyInt 50, PyInt 0) example_state)"

text \<open>
  The example object after its first \<^verbatim>\<open>update\<close> at the origin (which warms it up and
  submits every block), and after the interpolator has delivered two of the nine blocks:
  the usable block \<open>(0, 0)\<close> and the padding block \<open>(50, 0)\<close>. The raster of a block has
  \<open>50 / 0.05 = 1000\<close> samples per side; sample \<open>(i, j)\<close> of the example raster is \<open>i + 1\<close>.
\<close>

definition example_raster :: ndarray where
  "example_raster = \<lparr>shape0 = 1000, shape1 = 1000, cell = (\<lambda>i j. of_nat (i + 1))\<rparr>"

definition example_warm :: HighResDEMGen where
  "example_warm = snd (projr (update_high_res_dem no_db (PyInt 0, PyInt 0) example_state))"

definition example_collected :: HighResDEMGen where
  "example_collected =
     projr (collect_terrain_data [] [((0, 0), example_raster), ((50, 0), example_raster)]
              example_warm)"

subsection \<open>The pixel conversion as the specification words it\<close>

text \<open>\<^verbatim>\<open>math.floor\<close>\<close>

fun py_floor :: "number \<Rightarrow> error + int" where
  "py_floor (PyInt n) = Inr n"
| "py_floor (PyFloat (Finite q)) = Inr \<lfloor>q\<rfloor>"
| "py_floor (PyFloat PosInf) = Inl OverflowError"
| "py_floor (PyFloat NegInf) = Inl OverflowError"
| "py_floor (PyFloat NaN) = Inl ValueError"

text \<open>
  The specification's description of the index read by \<^verbatim>\<open>get_height\<close>: the floor of
  \<open>(position + half_extent * resolution - current_block_coord) / resolution\<close> on each
  axis, \<open>half_extent * resolution\<close> being half the side of the buffer in meters. It is
  not taken from the source; it is what \<open>get_pixel\<close> is compared with, in the same
  arithmetic.
\<close>

definition spec_get_pixel :: "HighResDEMGen \<Rightarrow> number \<times> number \<Rightarrow> error + int \<times> int" where
  "spec_get_pixel s position =
     bind (py_truediv (PyInt (int (shape0 (high_res_dem s)))) (PyInt 2)) (\<lambda>ex.
     bind (py_mul ex (PyFloat (resolution (settings s)))) (\<lambda>hx.
     bind (py_add (fst position) hx) (\<lambda>x1.
     bind (py_sub x1 (PyInt (fst (current_block_coord s)))) (\<lambda>x2.
     bind (py_truediv x2 (PyFloat (resolution (settings s)))) (\<lambda>qx.
     bind (py_floor qx) (\<lambda>i.
     bind (py_truediv (PyInt (int (shape1 (high_res_dem s)))) (PyInt 2)) (\<lambda>ey.
     bind (py_mul ey (PyFloat (resolution (settings s)))) (\<lambda>hy.
     bind (py_add (snd position) hy) (\<lambda>y1.
     bind (py_sub y1 (PyInt (snd (current_block_coord s)))) (\<lambda>y2.
     bind (py_truediv y2 (PyFloat (resolution (settings s)))) (\<lambda>qy.
     bind (py_floor qy) (\<lambda>j.
     Inr (i, j)))))))))))))"

section \<open>Properties\<close>

subsection \<open>\<^verbatim>\<open>shift_dem\<close>\<close>

lemmas slice_defs = slice_len_def slice_start_def slice_stop_def slice_bound_def in_slice_def

lemma axis_len_eq:
  assumes "shift_bounds (int n) sh = (mn_s, mx_s, mn_t, mx_t)" "sh \<le> int n"
  shows "slice_len n (Some mn_s, Some mx_s) = slice_len n (Some mn_t, Some mx_t)"
  using assms by (auto simp: shift_bounds_def slice_defs split: if_splits)

lemma axis_in_target:
  assumes "shift_bounds (int n) sh = (mn_s, mx_s, mn_t, mx_t)" "sh \<le> int n" "i < n"
  shows "in_slice n (Some mn_t, Some mx_t) i \<longleftrightarrow> (0 \<le> int i - sh \<and> int i - sh < int n)"
  using assms by (auto simp: shift_bounds_def slice_defs split: if_splits)

lemma axis_src:
  assumes b: "shift_bounds (int n) sh = (mn_s, mx_s, mn_t, mx_t)" and le: "sh \<le> int n" and i: "i < n"
    and ins: "in_slice n (Some mn_t, Some mx_t) i"
  shows "src_index n (Some mn_t, Some mx_t) (Some mn_s, Some mx_s) i = nat (int i - sh)"
proof -
  consider (pos) "sh > 0" | (zero) "sh = 0" | (neg) "sh < 0" by linarith
  then show ?thesis
  proof cases
    case pos
    with b have eqs: "mn_s = 0" "mx_s = - sh" "mn_t = sh" "mx_t = int n"
      by (simp_all add: shift_bounds_def)
    have st: "slice_start n (Some mn_t, Some mx_t) = nat sh" "slice_start n (Some mn_s, Some mx_s) = 0"
      "slice_len n (Some mn_s, Some mx_s) = n - nat sh"
      using pos le by (simp_all add: eqs slice_defs)
    from ins have "nat sh \<le> i" by (simp add: in_slice_def st)
    then show ?thesis using pos le i unfolding src_index_def st by auto
  next
    case zero
    with b have eqs: "mn_s = 0" "mx_s = int n" "mn_t = 0" "mx_t = int n"
      by (simp_all add: shift_bounds_def)
    have st: "slice_start n (Some mn_t, Some mx_t) = 0" "slice_start n (Some mn_s, Some mx_s) = 0"
      "slice_len n (Some mn_s, Some mx_s) = n"
      by (simp_all add: eqs slice_defs)
    show ?thesis using zero i unfolding src_index_def st by auto
  next
    case neg
    with b have eqs: "mn_s = - sh" "mx_s = int n" "mn_t = 0" "mx_t = sh"
      by (simp_all add: shift_bounds_def)
    have st: "slice_start n (Some mn_t, Some mx_t) = 0"
      "slice_start n (Some mn_s, Some mx_s) = min (nat (- sh)) n"
      "slice_len n (Some mn_s, Some mx_s) = n - min (nat (- sh)) n"
      "slice_stop n (Some mn_t, Some mx_t) = nat (max 0 (sh + int n))"
      using neg by (simp_all add: eqs slice_defs)
    from ins have "i < nat (max 0 (sh + int n))" by (simp add: in_slice_def st)
    then show ?thesis using neg i unfolding src_index_def st by auto
  qed
qed

lemma axis_fill:
  assumes "shift_bounds (int n) sh = (mn_s, mx_s, mn_t, mx_t)" "i < n"
  shows "sh < 0 \<Longrightarrow> in_slice n (Some mx_t, None) i \<longleftrightarrow> \<not> (int i - sh < int n)"
    and "sh > 0 \<Longrightarrow> sh \<le> int n \<Longrightarrow> in_slice n (None, Some mn_t) i \<longleftrightarrow> \<not> (0 \<le> int i - sh)"
  using assms by (auto simp: shift_bounds_def slice_defs split: if_splits)

lemma in_slice_all: "in_slice n (None, None) i \<longleftrightarrow> i < n"
  by (simp add: slice_defs)

lemma shift_dem_reset:
  assumes "dx > int (shape0 d) \<or> dy > int (shape1 d)"
  shows "shift_dem (dx, dy) d = Inr (fill_slice d (None, None) (None, None) 0)"
  using assms by (simp add: shift_dem_def)

lemma shift_dem_move:
  assumes le: "dx \<le> int (shape0 d)" "dy \<le> int (shape1 d)"
  shows "\<exists>d'. shift_dem (dx, dy) d = Inr d' \<and> shape0 d' = shape0 d \<and> shape1 d' = shape1 d
           \<and> (\<forall>i < shape0 d. \<forall>j < shape1 d. cell d' i j = shifted_cell d (dx, dy) i j)"
proof -
  obtain a b c e where bx: "shift_bounds (int (shape0 d)) dx = (a, b, c, e)"
    by (cases "shift_bounds (int (shape0 d)) dx") auto
  obtain a' b' c' e' where bby: "shift_bounds (int (shape1 d)) dy = (a', b', c', e')"
    by (cases "shift_bounds (int (shape1 d)) dy") auto
  define d1 where "d1 = d\<lparr>cell := (\<lambda>i j.
              if in_slice (shape0 d) (Some c, Some e) i \<and> in_slice (shape1 d) (Some c', Some e') j
              then cell d (src_index (shape0 d) (Some c, Some e) (Some a, Some b) i)
                          (src_index (shape1 d) (Some c', Some e') (Some a', Some b') j)
              else cell d i j)\<rparr>"
  have asg: "assign_slice d (Some c, Some e) (Some c', Some e') (Some a, Some b) (Some a', Some b') = Inr d1"
    by (simp add: assign_slice_def broadcastable_def d1_def
        axis_len_eq[OF bx le(1)] axis_len_eq[OF bby le(2)])
  define d2 where "d2 = (if dx < 0 then fill_slice d1 (Some e, None) (None, None) 0
                       else if dx > 0 then fill_slice d1 (None, Some c) (None, None) 0
                       else d1)"
  define d3 where "d3 = (if dy < 0 then fill_slice d2 (None, None) (Some e', None) 0
                       else if dy > 0 then fill_slice d2 (None, None) (None, Some c') 0
                       else d2)"
  have res: "shift_dem (dx, dy) d = Inr d3"
    using le by (simp add: shift_dem_def bx bby asg Let_def d2_def d3_def)
  have sh1: "shape0 d1 = shape0 d" "shape1 d1 = shape1 d" by (simp_all add: d1_def)
  have sh2: "shape0 d2 = shape0 d" "shape1 d2 = shape1 d"
    by (simp_all add: d2_def fill_slice_def sh1)
  have sh3: "shape0 d3 = shape0 d" "shape1 d3 = shape1 d"
    by (simp_all add: d3_def fill_slice_def sh2)
  have cells: "cell d3 i j = shifted_cell d (dx, dy) i j" if i: "i < shape0 d" and j: "j < shape1 d" for i j
  proof -
    let ?inx = "0 \<le> int i - dx \<and> int i - dx < int (shape0 d)"
    let ?iny = "0 \<le> int j - dy \<and> int j - dy < int (shape1 d)"
    have c1: "cell d1 i j = (if ?inx \<and> ?iny then cell d (nat (int i - dx)) (nat (int j - dy)) else cell d i j)"
      using axis_src[OF bx le(1) i] axis_src[OF bby le(2) j]
      by (simp add: d1_def axis_in_target[OF bx le(1) i] axis_in_target[OF bby le(2) j])
    have c2: "cell d2 i j = (if ?inx then cell d1 i j else 0)"
    proof -
      consider (neg) "dx < 0" | (zero) "dx = 0" | (pos) "dx > 0" by linarith
      then show ?thesis
      proof cases
        case neg
        then show ?thesis using i j axis_fill(1)[OF bx i neg]
          by (simp add: d2_def fill_slice_def sh1 in_slice_all)
      next
        case zero
        then show ?thesis using i by (simp add: d2_def)
      next
        case pos
        then show ?thesis using i j axis_fill(2)[OF bx i pos le(1)]
          by (simp add: d2_def fill_slice_def sh1 in_slice_all)
      qed
    qed
    have c3: "cell d3 i j = (if ?iny then cell d2 i j else 0)"
    proof -
      consider (neg) "dy < 0" | (zero) "dy = 0" | (pos) "dy > 0" by linarith
      then show ?thesis
      proof cases
        case neg
        then show ?thesis using i j axis_fill(1)[OF bby j neg]
          by (simp add: d3_def fill_slice_def sh2 in_slice_all)
      next
        case zero
        then show ?thesis using j by (simp add: d3_def)
      next
        case pos
        then show ?thesis using i j axis_fill(2)[OF bby j pos le(2)]
          by (simp add: d3_def fill_slice_def sh2 in_slice_all)
      qed
    qed
    show ?thesis unfolding c3 c2 c1 shifted_cell_def by simp
  qed
  show ?thesis using res sh3 cells by blast
qed


text \<open>
  Claim C6. For a pixel shift \<open>(dx, dy)\<close> with \<open>|dx|\<close> and \<open>|dy|\<close> smaller than the
  buffer's sides, \<^verbatim>\<open>shift_dem\<close> returns normally, keeps the shape, and every sample
  whose source pixel (its index minus the shift) was inside the buffer holds the old value
  of that source pixel, while every other sample (the newly exposed rows and columns) is zero.
\<close>

theorem shift_dem_partial_reuse:
  assumes "\<bar>dx\<bar> < int (shape0 d)" and "\<bar>dy\<bar> < int (shape1 d)"
  shows "\<exists>d'. shift_dem (dx, dy) d = Inr d' \<and> shape0 d' = shape0 d \<and> shape1 d' = shape1 d
           \<and> (\<forall>i < shape0 d. \<forall>j < shape1 d.
                 cell d' i j =
                   (if 0 \<le> int i - dx \<and> int i - dx < int (shape0 d)
                       \<and> 0 \<le> int j - dy \<and> int j - dy < int (shape1 d)
                    then cell d (nat (int i - dx)) (nat (int j - dy)) else 0))"
proof -
  have "dx \<le> int (shape0 d)" "dy \<le> int (shape1 d)" using assms by linarith+
  from shift_dem_move[OF this] show ?thesis unfolding shifted_cell_def fst_conv snd_conv .
qed

theorem shift_dem_partial_reuse_witness:
  "\<bar>1\<bar> < int (shape0 \<lparr>shape0 = 2, shape1 = 2, cell = (\<lambda>i j. of_nat (2 * i + j + 1))\<rparr>)
   \<and> \<bar>0\<bar> < int (shape1 \<lparr>shape0 = 2, shape1 = 2, cell = (\<lambda>i j. of_nat (2 * i + j + 1))\<rparr>)
   \<and> (\<exists>d'. shift_dem (1, 0) \<lparr>shape0 = 2, shape1 = 2, cell = (\<lambda>i j. of_nat (2 * i + j + 1))\<rparr> = Inr d'
          \<and> cell d' 1 0 = 1 \<and> cell d' 1 1 = 2 \<and> cell d' 0 0 = 0 \<and> cell d' 0 1 = 0)"
proof -
  let ?d = "\<lparr>shape0 = 2, shape1 = 2, cell = (\<lambda>i j. of_nat (2 * i + j + 1) :: rat)\<rparr>"
  have h: "\<bar>1\<bar> < int (shape0 ?d)" "\<bar>0\<bar> < int (shape1 ?d)" by simp_all
  from shift_dem_partial_reuse[OF h] obtain d' where
    r: "shift_dem (1, 0) ?d = Inr d'" and
    c: "\<And>i j. i < 2 \<Longrightarrow> j < 2 \<Longrightarrow> cell d' i j =
         (if 0 \<le> int i - 1 \<and> int i - 1 < 2 \<and> 0 \<le> int j - 0 \<and> int j - 0 < 2
          then cell ?d (nat (int i - 1)) (nat (int j - 0)) else 0)"
    by auto
  have "cell d' 1 0 = 1" "cell d' 1 1 = 2" "cell d' 0 0 = 0" "cell d' 0 1 = 0"
    using c[of 1 0] c[of 1 1] c[of 0 0] c[of 0 1] by simp_all
  with r h show ?thesis by blast
qed

text \<open>
  Claim C7. When \<open>|dx|\<close> exceeds the size of the first axis or \<open>|dy|\<close> that of the
  second, whatever the signs, \<^verbatim>\<open>shift_dem\<close> returns normally and leaves every sample
  of the buffer zero.
\<close>

theorem shift_dem_overflow_resets:
  assumes "\<bar>dx\<bar> > int (shape0 d) \<or> \<bar>dy\<bar> > int (shape1 d)"
  shows "\<exists>d'. shift_dem (dx, dy) d = Inr d' \<and> shape0 d' = shape0 d \<and> shape1 d' = shape1 d
           \<and> (\<forall>i < shape0 d. \<forall>j < shape1 d. cell d' i j = 0)"
proof (cases "dx > int (shape0 d) \<or> dy > int (shape1 d)")
  case True
  then show ?thesis
    by (simp add: shift_dem_reset fill_slice_def in_slice_all)
next
  case False
  then have le: "dx \<le> int (shape0 d)" "dy \<le> int (shape1 d)" by linarith+
  from shift_dem_move[OF le] obtain d' where
    r: "shift_dem (dx, dy) d = Inr d'" "shape0 d' = shape0 d" "shape1 d' = shape1 d" and
    c: "\<And>i j. i < shape0 d \<Longrightarrow> j < shape1 d \<Longrightarrow> cell d' i j = shifted_cell d (dx, dy) i j"
    by blast
  have "shifted_cell d (dx, dy) i j = 0" if "i < shape0 d" "j < shape1 d" for i j
    using assms le that by (auto simp: shifted_cell_def)
  with r c show ?thesis by simp
qed

theorem shift_dem_overflow_resets_witness:
  "(\<bar>- 3\<bar> > int (shape0 \<lparr>shape0 = 2, shape1 = 2, cell = (\<lambda>i j. of_nat (2 * i + j + 1))\<rparr>)
     \<or> \<bar>1\<bar> > int (shape1 \<lparr>shape0 = 2, shape1 = 2, cell = (\<lambda>i j. of_nat (2 * i + j + 1))\<rparr>))
   \<and> (\<exists>d'. shift_dem (- 3, 1) \<lparr>shape0 = 2, shape1 = 2, cell = (\<lambda>i j. of_nat (2 * i + j + 1))\<rparr> = Inr d'
          \<and> cell d' 0 0 = 0 \<and> cell d' 0 1 = 0 \<and> cell d' 1 0 = 0 \<and> cell d' 1 1 = 0)"
proof -
  let ?d = "\<lparr>shape0 = 2, shape1 = 2, cell = (\<lambda>i j. of_nat (2 * i + j + 1) :: rat)\<rparr>"
  have h: "\<bar>- 3\<bar> > int (shape0 ?d) \<or> \<bar>1\<bar> > int (shape1 ?d)" by simp
  from shift_dem_overflow_resets[OF h] obtain d' where
    r: "shift_dem (- 3, 1) ?d = Inr d'" and
    c: "\<And>i j. i < 2 \<Longrightarrow> j < 2 \<Longrightarrow> cell d' i j = 0"
    by auto
  have "cell d' 0 0 = 0" "cell d' 0 1 = 0" "cell d' 1 0 = 0" "cell d' 1 1 = 0"
    using c[of 0 0] c[of 0 1] c[of 1 0] c[of 1 1] by simp_all
  with r h show ?thesis by blast
qed

subsection \<open>Loops and dictionaries\<close>

lemma bind_Inr [simp]: "bind (Inr a) f = f a"
  by (simp add: bind_def)

lemma bind_Inl [simp]: "bind (Inl e) f = Inl e"
  by (simp add: bind_def)

lemma bind_eq_Inr: "bind m f = Inr b \<longleftrightarrow> (\<exists>a. m = Inr a \<and> f a = Inr b)"
  by (cases m) simp_all

lemma for_each_snoc: "for_each body (xs @ [x]) s = bind (for_each body xs s) (body x)"
  by (induction xs arbitrary: s) (simp_all add: bind_def split: sum.splits)

lemma for_each_invariant:
  assumes "for_each body xs s = Inr s'" and "P s"
    and "\<And>x a b. x \<in> set xs \<Longrightarrow> P a \<Longrightarrow> body x a = Inr b \<Longrightarrow> P b"
  shows "P s'"
  using assms
proof (induction xs arbitrary: s)
  case Nil
  then show ?case by simp
next
  case (Cons x xs)
  from Cons.prems(1) obtain a where a: "body x s = Inr a" "for_each body xs a = Inr s'"
    by (auto simp: bind_eq_Inr)
  have "P a" by (rule Cons.prems(3)[OF _ Cons.prems(2) a(1)]) simp
  then show ?case
  proof (rule Cons.IH[OF a(2)])
    fix y u v assume "y \<in> set xs" "P u" "body y u = Inr v"
    then show "P v" using Cons.prems(3)[of y u v] by simp
  qed
qed

lemma for_each_total:
  assumes "P s"
    and "\<And>x a. x \<in> set xs \<Longrightarrow> P a \<Longrightarrow> \<exists>b. body x a = Inr b \<and> P b"
  shows "\<exists>s'. for_each body xs s = Inr s' \<and> P s'"
  using assms
proof (induction xs arbitrary: s)
  case Nil
  then show ?case by simp
next
  case (Cons x xs)
  from Cons.prems obtain b where b: "body x s = Inr b" "P b" by fastforce
  from Cons.IH[OF b(2)] Cons.prems(2) show ?case by (simp add: b(1))
qed

lemma getitem_Some: "map_of d k = Some v \<Longrightarrow> getitem d k = Inr v"
  by (simp add: getitem_def)

lemma getitem_eq_Inr: "getitem d k = Inr v \<longleftrightarrow> map_of d k = Some v"
  by (simp add: getitem_def split: option.splits)

lemma mark_padding_eq:
  assumes "map_of tracker k = Some r"
  shows "mark_padding cfg tracker st xy k =
           Inr (st[r := (st ! r)\<lparr>is_padding :=
                  (fst xy = - num_blocks cfg - 1 \<or> fst xy = num_blocks cfg + 1
                   \<or> snd xy = - num_blocks cfg - 1 \<or> snd xy = num_blocks cfg + 1)\<rparr>])"
  using assms by (simp add: mark_padding_def set_is_padding_def getitem_Some)

lemma shift_cell_new:
  assumes "map_of old_map (abs_of cfg c xy) = None"
    and "map_of old_tracker (slot_of cfg xy) = Some r0"
  shows "shift_cell cfg old_tracker old_map c xy (ntr, nmp, st) =
           Inr (AList.update (slot_of cfg xy) (length st) ntr,
                AList.update (abs_of cfg c xy) (slot_of cfg xy) nmp,
                (st @ [empty_state cfg])[r0 := ((st @ [empty_state cfg]) ! r0)\<lparr>is_padding :=
                  (fst xy = - num_blocks cfg - 1 \<or> fst xy = num_blocks cfg + 1
                   \<or> snd xy = - num_blocks cfg - 1 \<or> snd xy = num_blocks cfg + 1)\<rparr>])"
  using assms
  by (simp add: shift_cell_def Let_def slot_of_def abs_of_def mark_padding_eq)

lemma shift_cell_old:
  assumes "map_of old_map (abs_of cfg c xy) = Some k2"
    and "map_of old_tracker k2 = Some r"
    and "map_of old_tracker (slot_of cfg xy) = Some r0"
  shows "shift_cell cfg old_tracker old_map c xy (ntr, nmp, st) =
           Inr (AList.update (slot_of cfg xy) r ntr,
                AList.update (abs_of cfg c xy) (slot_of cfg xy) nmp,
                st[r0 := (st ! r0)\<lparr>is_padding :=
                  (fst xy = - num_blocks cfg - 1 \<or> fst xy = num_blocks cfg + 1
                   \<or> snd xy = - num_blocks cfg - 1 \<or> snd xy = num_blocks cfg + 1)\<rparr>])"
  using assms
  by (simp add: shift_cell_def Let_def slot_of_def abs_of_def mark_padding_eq getitem_Some)


lemma abs_slot: "abs_of cfg c xy = (fst (slot_of cfg xy) + fst c, snd (slot_of cfg xy) + snd c)"
  by (simp add: abs_of_def slot_of_def)

lemma slot_eq_abs_eq: "slot_of cfg xy = slot_of cfg xy' \<Longrightarrow> abs_of cfg c xy = abs_of cfg c xy'"
  by (simp add: abs_slot)

lemma abs_eq_slot_eq: "abs_of cfg c xy = abs_of cfg c xy' \<Longrightarrow> slot_of cfg xy = slot_of cfg xy'"
  by (simp add: abs_of_def slot_of_def)

lemma same_readiness_refl [simp]: "same_readiness a a"
  by (simp add: same_readiness_def)

lemma same_readiness_padding [simp]: "same_readiness (a\<lparr>is_padding := b\<rparr>) c = same_readiness a c"
  by (simp add: same_readiness_def)

lemma map_step:
  assumes i1: "\<And>k v. map_of nmp k = Some v \<longleftrightarrow>
                 (\<exists>xy \<in> set cs. k = abs_of cfg c xy \<and> v = slot_of cfg xy)"
  shows "map_of (AList.update (abs_of cfg c xy) (slot_of cfg xy) nmp) k = Some v \<longleftrightarrow>
           (\<exists>xy' \<in> set (cs @ [xy]). k = abs_of cfg c xy' \<and> v = slot_of cfg xy')"
proof (cases "k = abs_of cfg c xy")
  case True
  have "(\<exists>xy' \<in> set (cs @ [xy]). k = abs_of cfg c xy' \<and> v = slot_of cfg xy') \<longleftrightarrow> v = slot_of cfg xy"
  proof
    assume "\<exists>xy' \<in> set (cs @ [xy]). k = abs_of cfg c xy' \<and> v = slot_of cfg xy'"
    then obtain xy' where "k = abs_of cfg c xy'" "v = slot_of cfg xy'" by blast
    with True show "v = slot_of cfg xy" using abs_eq_slot_eq[of cfg c xy' xy] by simp
  next
    assume "v = slot_of cfg xy"
    with True show "\<exists>xy' \<in> set (cs @ [xy]). k = abs_of cfg c xy' \<and> v = slot_of cfg xy'" by simp
  qed
  with True show ?thesis by (auto simp: update_conv')
next
  case False
  then show ?thesis using i1[of k v] by (auto simp: update_conv')
qed

lemma shift_inv_step:
  assumes inv: "shift_inv cfg otr omp c st0 cs g"
    and a1: "map_of otr (slot_of cfg xy) = Some r0"
    and a2: "\<And>k k2. map_of omp k = Some k2 \<Longrightarrow> \<exists>r. map_of otr k2 = Some r"
    and a3: "\<And>k r. map_of otr k = Some r \<Longrightarrow> r < length st0"
  shows "\<exists>g'. shift_cell cfg otr omp c xy g = Inr g' \<and> shift_inv cfg otr omp c st0 (cs @ [xy]) g'"
proof -
  obtain ntr nmp st where g: "g = (ntr, nmp, st)" by (cases g) auto
  have inv': "(\<forall>k v. map_of nmp k = Some v \<longleftrightarrow>
                (\<exists>xy \<in> set cs. k = abs_of cfg c xy \<and> v = slot_of cfg xy))
        \<and> fst ` set ntr = slot_of cfg ` set cs
        \<and> (\<forall>xy \<in> set cs.
              case map_of omp (abs_of cfg c xy) of
                Some k2 \<Rightarrow> map_of ntr (slot_of cfg xy) = map_of otr k2
              | None \<Rightarrow> (\<exists>r. map_of ntr (slot_of cfg xy) = Some r
                             \<and> length st0 \<le> r \<and> r < length st))
        \<and> length st0 \<le> length st
        \<and> (\<forall>r < length st0. same_readiness (st ! r) (st0 ! r))
        \<and> (\<forall>r. length st0 \<le> r \<and> r < length st \<longrightarrow> st ! r = empty_state cfg)
        \<and> distinct (map fst nmp)"
    using inv unfolding shift_inv_def g prod.case .
  note i1 = inv'[THEN conjunct1, rule_format]
  note i2 = inv'[THEN conjunct2, THEN conjunct1]
  note i3 = inv'[THEN conjunct2, THEN conjunct2, THEN conjunct1, rule_format]
  note i4 = inv'[THEN conjunct2, THEN conjunct2, THEN conjunct2, THEN conjunct1]
  note i5 = inv'[THEN conjunct2, THEN conjunct2, THEN conjunct2, THEN conjunct2, THEN conjunct1, rule_format]
  note i6 = inv'[THEN conjunct2, THEN conjunct2, THEN conjunct2, THEN conjunct2, THEN conjunct2,
      THEN conjunct1, rule_format]
  note i7 = inv'[THEN conjunct2, THEN conjunct2, THEN conjunct2, THEN conjunct2, THEN conjunct2,
      THEN conjunct2]
  have r0: "r0 < length st0" using a1 a3 by blast
  let ?pad = "(fst xy = - num_blocks cfg - 1 \<or> fst xy = num_blocks cfg + 1
                   \<or> snd xy = - num_blocks cfg - 1 \<or> snd xy = num_blocks cfg + 1)"
  show ?thesis
  proof (cases "map_of omp (abs_of cfg c xy)")
    case None
    let ?st1 = "st @ [empty_state cfg]"
    let ?st' = "?st1[r0 := (?st1 ! r0)\<lparr>is_padding := ?pad\<rparr>]"
    let ?ntr' = "AList.update (slot_of cfg xy) (length st) ntr"
    let ?nmp' = "AList.update (abs_of cfg c xy) (slot_of cfg xy) nmp"
    have res: "shift_cell cfg otr omp c xy g = Inr (?ntr', ?nmp', ?st')"
      unfolding g by (rule shift_cell_new[OF None a1])
    have n1: "map_of ?nmp' k = Some v \<longleftrightarrow> (\<exists>xy' \<in> set (cs @ [xy]). k = abs_of cfg c xy' \<and> v = slot_of cfg xy')" for k v
      by (rule map_step[OF i1])
    have n2: "fst ` set ?ntr' = slot_of cfg ` set (cs @ [xy])"
      using i2 by (simp add: dom_update)
    have n3: "(case map_of omp (abs_of cfg c xy') of
                Some k2 \<Rightarrow> map_of ?ntr' (slot_of cfg xy') = map_of otr k2
              | None \<Rightarrow> (\<exists>r. map_of ?ntr' (slot_of cfg xy') = Some r \<and> length st0 \<le> r \<and> r < length ?st'))"
      if "xy' \<in> set (cs @ [xy])" for xy'
    proof (cases "slot_of cfg xy' = slot_of cfg xy")
      case True
      then have "abs_of cfg c xy' = abs_of cfg c xy" by (rule slot_eq_abs_eq)
      then show ?thesis using None True i4 by (simp add: update_conv')
    next
      case False
      then have "xy' \<in> set cs" using that by auto
      from i3[OF this] False show ?thesis
        by (auto simp: update_conv' split: option.splits)
    qed
    have n4: "length st0 \<le> length ?st'" using i4 by simp
    have n5: "same_readiness (?st' ! r) (st0 ! r)" if "r < length st0" for r
      using that i4 i5[of r] r0 by (cases "r = r0") (simp_all add: nth_append)
    have n6: "?st' ! r = empty_state cfg" if "length st0 \<le> r" "r < length ?st'" for r
      using that r0 i6[of r] by (cases "r < length st") (simp_all add: nth_append less_Suc_eq)
    have n7: "distinct (map fst ?nmp')" using i7 by (rule distinct_update)
    have "shift_inv cfg otr omp c st0 (cs @ [xy]) (?ntr', ?nmp', ?st')"
      unfolding shift_inv_def prod.case
      by (intro conjI allI ballI impI) (use n1 n2 n3 n4 n5 n6 n7 in \<open>simp_all only:\<close>)
    with res show ?thesis by blast
  next
    case (Some k2)
    from a2[OF Some] obtain r where r: "map_of otr k2 = Some r" by blast
    let ?st' = "st[r0 := (st ! r0)\<lparr>is_padding := ?pad\<rparr>]"
    let ?ntr' = "AList.update (slot_of cfg xy) r ntr"
    let ?nmp' = "AList.update (abs_of cfg c xy) (slot_of cfg xy) nmp"
    have res: "shift_cell cfg otr omp c xy g = Inr (?ntr', ?nmp', ?st')"
      unfolding g by (rule shift_cell_old[OF Some r a1])
    have n1: "map_of ?nmp' k = Some v \<longleftrightarrow> (\<exists>xy' \<in> set (cs @ [xy]). k = abs_of cfg c xy' \<and> v = slot_of cfg xy')" for k v
      by (rule map_step[OF i1])
    have n2: "fst ` set ?ntr' = slot_of cfg ` set (cs @ [xy])"
      using i2 by (simp add: dom_update)
    have n3: "(case map_of omp (abs_of cfg c xy') of
                Some k2 \<Rightarrow> map_of ?ntr' (slot_of cfg xy') = map_of otr k2
              | None \<Rightarrow> (\<exists>r. map_of ?ntr' (slot_of cfg xy') = Some r \<and> length st0 \<le> r \<and> r < length ?st'))"
      if "xy' \<in> set (cs @ [xy])" for xy'
    proof (cases "slot_of cfg xy' = slot_of cfg xy")
      case True
      then have "abs_of cfg c xy' = abs_of cfg c xy" by (rule slot_eq_abs_eq)
      then show ?thesis using Some True r by (simp add: update_conv')
    next
      case False
      then have "xy' \<in> set cs" using that by auto
      from i3[OF this] False show ?thesis
        by (auto simp: update_conv' split: option.splits)
    qed
    have n4: "length st0 \<le> length ?st'" using i4 by simp
    have n5: "same_readiness (?st' ! r) (st0 ! r)" if "r < length st0" for r
      using that i4 i5[of r] r0 by (cases "r = r0") simp_all
    have n6: "?st' ! r = empty_state cfg" if "length st0 \<le> r" "r < length ?st'" for r
      using that r0 i6[of r] by simp
    have n7: "distinct (map fst ?nmp')" using i7 by (rule distinct_update)
    have "shift_inv cfg otr omp c st0 (cs @ [xy]) (?ntr', ?nmp', ?st')"
      unfolding shift_inv_def prod.case
      by (intro conjI allI ballI impI) (use n1 n2 n3 n4 n5 n6 n7 in \<open>simp_all only:\<close>)
    with res show ?thesis by blast
  qed
qed


lemma shift_loop:
  assumes a1: "\<And>xy. xy \<in> set cs \<Longrightarrow> \<exists>r0. map_of otr (slot_of cfg xy) = Some r0"
    and a2: "\<And>k k2. map_of omp k = Some k2 \<Longrightarrow> \<exists>r. map_of otr k2 = Some r"
    and a3: "\<And>k r. map_of otr k = Some r \<Longrightarrow> r < length st0"
  shows "\<exists>g. for_each (shift_cell cfg otr omp c) cs ([], [], st0) = Inr g
            \<and> shift_inv cfg otr omp c st0 cs g"
  using a1
proof (induction cs rule: rev_induct)
  case Nil
  have "\<forall>r. length st0 \<le> r \<and> r < length st0 \<longrightarrow> st0 ! r = empty_state cfg" by auto
  then show ?case by (simp add: shift_inv_def)
next
  case (snoc xy cs)
  from snoc.IH snoc.prems obtain g where
    g: "for_each (shift_cell cfg otr omp c) cs ([], [], st0) = Inr g"
       "shift_inv cfg otr omp c st0 cs g"
    by auto
  from snoc.prems[of xy] obtain r0 where r0: "map_of otr (slot_of cfg xy) = Some r0" by auto
  have "\<exists>g'. shift_cell cfg otr omp c xy g = Inr g' \<and> shift_inv cfg otr omp c st0 (cs @ [xy]) g'"
  proof (rule shift_inv_step[OF g(2) r0])
    fix k k2 assume "map_of omp k = Some k2"
    then show "\<exists>r. map_of otr k2 = Some r" by (rule a2)
  next
    fix k r assume "map_of otr k = Some r"
    then show "r < length st0" by (rule a3)
  qed
  then obtain g' where
    "shift_cell cfg otr omp c xy g = Inr g'" "shift_inv cfg otr omp c st0 (cs @ [xy]) g'"
    by blast
  then show ?case by (simp add: for_each_snoc g(1))
qed

lemma grid_wf_slot:
  assumes "grid_wf s c0" and "xy \<in> set (grid_cells (settings s))"
  shows "\<exists>r. map_of (block_grid_tracker s) (slot_of (settings s) xy) = Some r"
proof -
  from assms have "slot_of (settings s) xy \<in> fst ` set (block_grid_tracker s)"
    by (simp add: grid_wf_def)
  then show ?thesis by (metis map_of_eq_None_iff not_Some_eq)
qed

lemma grid_wf_map:
  assumes "grid_wf s c0" and "map_of (map_grid_block2coords s) k = Some k2"
  shows "\<exists>xy \<in> set (grid_cells (settings s)).
           k = abs_of (settings s) c0 xy \<and> k2 = slot_of (settings s) xy"
  using assms unfolding grid_wf_def by blast

lemma grid_wf_map_ref:
  assumes "grid_wf s c0" and "map_of (map_grid_block2coords s) k = Some k2"
  shows "\<exists>r. map_of (block_grid_tracker s) k2 = Some r"
  using grid_wf_map[OF assms] grid_wf_slot[OF assms(1)] by blast

lemma grid_wf_ref:
  assumes "grid_wf s c0" and "map_of (block_grid_tracker s) k = Some r"
  shows "r < length (store s)"
  using assms unfolding grid_wf_def by blast

lemma shift_block_grid_spec:
  assumes wf: "grid_wf s c0"
  shows "\<exists>ntr nmp st.
           shift_block_grid c s =
             Inr (s\<lparr>block_grid_tracker := ntr, map_grid_block2coords := nmp, store := st\<rparr>)
           \<and> shift_inv (settings s) (block_grid_tracker s) (map_grid_block2coords s) c (store s)
                (grid_cells (settings s)) (ntr, nmp, st)"
proof -
  from shift_loop[of "grid_cells (settings s)" "block_grid_tracker s" "settings s"
      "map_grid_block2coords s" "store s" c]
    grid_wf_slot[OF wf] grid_wf_map_ref[OF wf] grid_wf_ref[OF wf]
  obtain g where
    g: "for_each (shift_cell (settings s) (block_grid_tracker s) (map_grid_block2coords s) c)
          (grid_cells (settings s)) ([], [], store s) = Inr g"
       "shift_inv (settings s) (block_grid_tracker s) (map_grid_block2coords s) c (store s)
          (grid_cells (settings s)) g"
    by blast
  obtain ntr nmp st where "g = (ntr, nmp, st)" by (cases g) auto
  with g have "shift_block_grid c s =
             Inr (s\<lparr>block_grid_tracker := ntr, map_grid_block2coords := nmp, store := st\<rparr>)"
    "shift_inv (settings s) (block_grid_tracker s) (map_grid_block2coords s) c (store s)
                (grid_cells (settings s)) (ntr, nmp, st)"
    by (simp_all add: shift_block_grid_def)
  then show ?thesis by blast
qed

lemma shift_inv_wf:
  assumes wf: "grid_wf s c0"
    and inv: "shift_inv (settings s) (block_grid_tracker s) (map_grid_block2coords s) c (store s)
                (grid_cells (settings s)) (ntr, nmp, st)"
  shows "grid_wf (s\<lparr>block_grid_tracker := ntr, map_grid_block2coords := nmp, store := st\<rparr>) c"
proof -
  let ?cfg = "settings s"
  note inv' = inv[unfolded shift_inv_def prod.case]
  note i1 = inv'[THEN conjunct1]
  note i2 = inv'[THEN conjunct2, THEN conjunct1]
  note i3 = inv'[THEN conjunct2, THEN conjunct2, THEN conjunct1, rule_format]
  note i4 = inv'[THEN conjunct2, THEN conjunct2, THEN conjunct2, THEN conjunct1]
  note i7 = inv'[THEN conjunct2, THEN conjunct2, THEN conjunct2, THEN conjunct2, THEN conjunct2,
      THEN conjunct2]
  have refs: "r < length st" if "map_of ntr k = Some r" for k r
  proof -
    from that have "k \<in> fst ` set ntr" by (metis map_of_eq_None_iff option.distinct(1))
    with i2 obtain xy where xy: "xy \<in> set (grid_cells ?cfg)" "k = slot_of ?cfg xy" by auto
    show ?thesis
    proof (cases "map_of (map_grid_block2coords s) (abs_of ?cfg c xy)")
      case None
      with i3[OF xy(1)] that xy(2) show ?thesis by auto
    next
      case (Some k2)
      with i3[OF xy(1)] that xy(2) have "map_of (block_grid_tracker s) k2 = Some r" by simp
      from grid_wf_ref[OF wf this] i4 show ?thesis by simp
    qed
  qed
  show ?thesis unfolding grid_wf_def using i1 i2 refs i7 by simp
qed

lemma build_cell_eq:
  "build_cell cfg c xy (tr, mp, st) =
     Inr (AList.update (slot_of cfg xy) (length st) tr,
          AList.update (abs_of cfg c xy) (slot_of cfg xy) mp,
          st @ [(empty_state cfg)\<lparr>is_padding :=
                  (fst xy = - num_blocks cfg - 1 \<or> fst xy = num_blocks cfg + 1
                   \<or> snd xy = - num_blocks cfg - 1 \<or> snd xy = num_blocks cfg + 1)\<rparr>])"
proof -
  have "map_of (AList.update (slot_of cfg xy) (length st) tr) (slot_of cfg xy) = Some (length st)"
    by (simp add: update_conv')
  from mark_padding_eq[OF this, of cfg "st @ [empty_state cfg]" xy]
  show ?thesis
    by (simp add: build_cell_def Let_def slot_of_def abs_of_def)
qed

lemma build_loop:
  "\<exists>tr mp st. for_each (build_cell cfg c) cs ([], [], st0) = Inr (tr, mp, st)
      \<and> (\<forall>k v. map_of mp k = Some v \<longleftrightarrow>
                (\<exists>xy \<in> set cs. k = abs_of cfg c xy \<and> v = slot_of cfg xy))
      \<and> fst ` set tr = slot_of cfg ` set cs
      \<and> (\<forall>k r. map_of tr k = Some r \<longrightarrow> r < length st)
      \<and> distinct (map fst mp)"
proof (induction cs rule: rev_induct)
  case Nil
  show ?case by simp
next
  case (snoc xy cs)
  then obtain tr mp st where
    g: "for_each (build_cell cfg c) cs ([], [], st0) = Inr (tr, mp, st)" and
    inv: "(\<forall>k v. map_of mp k = Some v \<longleftrightarrow>
                (\<exists>xy \<in> set cs. k = abs_of cfg c xy \<and> v = slot_of cfg xy))
      \<and> fst ` set tr = slot_of cfg ` set cs
      \<and> (\<forall>k r. map_of tr k = Some r \<longrightarrow> r < length st)
      \<and> distinct (map fst mp)"
    by (elim exE conjE) (intro that conjI)
  note i1 = inv[THEN conjunct1, rule_format]
  note i2 = inv[THEN conjunct2, THEN conjunct1]
  note i3 = inv[THEN conjunct2, THEN conjunct2, THEN conjunct1, rule_format]
  note i4 = inv[THEN conjunct2, THEN conjunct2, THEN conjunct2]
  let ?tr' = "AList.update (slot_of cfg xy) (length st) tr"
  let ?mp' = "AList.update (abs_of cfg c xy) (slot_of cfg xy) mp"
  let ?st' = "st @ [(empty_state cfg)\<lparr>is_padding :=
                  (fst xy = - num_blocks cfg - 1 \<or> fst xy = num_blocks cfg + 1
                   \<or> snd xy = - num_blocks cfg - 1 \<or> snd xy = num_blocks cfg + 1)\<rparr>]"
  have res: "for_each (build_cell cfg c) (cs @ [xy]) ([], [], st0) = Inr (?tr', ?mp', ?st')"
    by (simp add: for_each_snoc g build_cell_eq)
  have n1: "\<forall>k v. map_of ?mp' k = Some v \<longleftrightarrow>
              (\<exists>xy' \<in> set (cs @ [xy]). k = abs_of cfg c xy' \<and> v = slot_of cfg xy')"
    by (intro allI) (rule map_step[OF i1])
  have n2: "fst ` set ?tr' = slot_of cfg ` set (cs @ [xy])"
    using i2 by (simp add: dom_update)
  have n3: "\<forall>k r. map_of ?tr' k = Some r \<longrightarrow> r < length ?st'"
  proof (intro allI impI)
    fix k r assume a: "map_of ?tr' k = Some r"
    show "r < length ?st'"
    proof (cases "k = slot_of cfg xy")
      case True
      with a show ?thesis by (simp add: update_conv')
    next
      case False
      with a have "map_of tr k = Some r" by (simp add: update_conv')
      from i3[OF this] show ?thesis by simp
    qed
  qed
  have n4: "distinct (map fst ?mp')" using i4 by (rule distinct_update)
  from res n1 n2 n3 n4 show ?case by blast
qed

lemma build_block_grid_wf:
  "\<exists>tr mp st. build_block_grid s =
       Inr (s\<lparr>block_grid_tracker := tr, map_grid_block2coords := mp, store := st\<rparr>)
     \<and> grid_wf (s\<lparr>block_grid_tracker := tr, map_grid_block2coords := mp, store := st\<rparr>)
          (current_block_coord s)"
proof -
  from build_loop[of "settings s" "current_block_coord s" "grid_cells (settings s)" "store s"]
  obtain tr mp st where
    g: "for_each (build_cell (settings s) (current_block_coord s)) (grid_cells (settings s))
          ([], [], store s) = Inr (tr, mp, st)" and
    i: "(\<forall>k v. map_of mp k = Some v \<longleftrightarrow>
                (\<exists>xy \<in> set (grid_cells (settings s)).
                   k = abs_of (settings s) (current_block_coord s) xy \<and> v = slot_of (settings s) xy))"
       "fst ` set tr = slot_of (settings s) ` set (grid_cells (settings s))"
       "(\<forall>k r. map_of tr k = Some r \<longrightarrow> r < length st)"
       "distinct (map fst mp)"
    by (elim exE conjE) (rule that)
  have "build_block_grid s =
       Inr (s\<lparr>block_grid_tracker := tr, map_grid_block2coords := mp, store := st\<rparr>)"
    by (simp add: build_block_grid_def g)
  moreover have "grid_wf (s\<lparr>block_grid_tracker := tr, map_grid_block2coords := mp, store := st\<rparr>)
          (current_block_coord s)"
    unfolding grid_wf_def using i by simp
  ultimately show ?thesis by blast
qed

subsection \<open>What each operation leaves unchanged\<close>

lemma shift_dem_total: "\<exists>d'. shift_dem px d = Inr d' \<and> shape0 d' = shape0 d \<and> shape1 d' = shape1 d"
proof (cases "fst px > int (shape0 d) \<or> snd px > int (shape1 d)")
  case True
  then have "shift_dem (fst px, snd px) d = Inr (fill_slice d (None, None) (None, None) 0)"
    by (rule shift_dem_reset)
  then show ?thesis by (simp add: fill_slice_def)
next
  case False
  then have "fst px \<le> int (shape0 d)" "snd px \<le> int (shape1 d)" by linarith+
  from shift_dem_move[OF this] show ?thesis by auto
qed

lemma nth_upd: "(xs[i := x]) ! j = (if i = j \<and> i < length xs then x else xs ! j)"
  by (cases "i < length xs") (simp_all add: nth_list_update list_update_beyond)

lemma set_flag_results:
  "set_has_crater_metadata tr st k v = Inr st' \<longleftrightarrow>
     (\<exists>r. map_of tr k = Some r \<and> st' = st[r := (st ! r)\<lparr>has_crater_metadata := v\<rparr>])"
  "set_has_crater_data tr st k v = Inr st' \<longleftrightarrow>
     (\<exists>r. map_of tr k = Some r \<and> st' = st[r := (st ! r)\<lparr>has_crater_data := v\<rparr>])"
  "set_has_terrain_data tr st k v = Inr st' \<longleftrightarrow>
     (\<exists>r. map_of tr k = Some r \<and> st' = st[r := (st ! r)\<lparr>has_terrain_data := v\<rparr>])"
  by (auto simp: set_has_crater_metadata_def set_has_crater_data_def set_has_terrain_data_def
      bind_eq_Inr getitem_eq_Inr)

lemma block_state_eq_Inr:
  "block_state tr st k = Inr b \<longleftrightarrow> (\<exists>r. map_of tr k = Some r \<and> b = st ! r)"
  by (auto simp: block_state_def bind_eq_Inr getitem_eq_Inr)

lemma map_of_key_Some:
  assumes "k \<in> set (map fst al)"
  shows "\<exists>v. map_of al k = Some v"
  using assms by (metis map_of_eq_None_iff not_Some_eq set_map)

lemma gcm_frame:
  assumes "generate_craters_metadata db s = Inr s'"
  shows "\<exists>st. s' = s\<lparr>store := st\<rparr> \<and> length st = length (store s)
           \<and> (\<forall>r. has_terrain_data (st ! r) = has_terrain_data (store s ! r))"
proof -
  let ?body = "\<lambda>coords st.
                bind (getitem (map_grid_block2coords s) coords)
                  (\<lambda>local_coords.
                     if db coords
                     then set_has_crater_metadata (block_grid_tracker s) st local_coords True
                     else set_has_crater_metadata (block_grid_tracker s) st local_coords False)"
  let ?P = "\<lambda>st. length st = length (store s)
           \<and> (\<forall>r. has_terrain_data (st ! r) = has_terrain_data (store s ! r))"
  from assms obtain st where
    loop: "for_each ?body (map fst (map_grid_block2coords s)) (store s) = Inr st" and
    s': "s' = s\<lparr>store := st\<rparr>"
    unfolding generate_craters_metadata_def bind_eq_Inr by auto
  have "?P st"
  proof (rule for_each_invariant[OF loop, of ?P])
    show "?P (store s)" by simp
  next
    fix x a b assume "?P a" and b: "?body x a = Inr b"
    from b obtain r v where "b = a[r := (a ! r)\<lparr>has_crater_metadata := v\<rparr>]"
      by (auto simp: bind_eq_Inr set_flag_results split: if_splits)
    with \<open>?P a\<close> show "?P b" by (simp add: nth_upd)
  qed
  with s' show ?thesis by blast
qed

lemma gcm_total:
  assumes wf: "grid_wf s c"
  shows "\<exists>s'. generate_craters_metadata db s = Inr s'"
proof -
  let ?body = "\<lambda>coords st.
                bind (getitem (map_grid_block2coords s) coords)
                  (\<lambda>local_coords.
                     if db coords
                     then set_has_crater_metadata (block_grid_tracker s) st local_coords True
                     else set_has_crater_metadata (block_grid_tracker s) st local_coords False)"
  have "\<exists>st. for_each ?body (map fst (map_grid_block2coords s)) (store s) = Inr st \<and> True"
  proof (rule for_each_total)
    fix x and a :: "BlockState list"
    assume "x \<in> set (map fst (map_grid_block2coords s))"
    from map_of_key_Some[OF this] obtain k2 where k2: "map_of (map_grid_block2coords s) x = Some k2"
      by blast
    from grid_wf_map_ref[OF wf k2] obtain r where "map_of (block_grid_tracker s) k2 = Some r"
      by blast
    with k2 show "\<exists>b. ?body x a = Inr b \<and> True"
      by (simp add: getitem_Some set_has_crater_metadata_def)
  qed simp
  then show ?thesis by (auto simp: generate_craters_metadata_def)
qed

lemma gtb_frame:
  assumes "generate_terrain_blocks s = Inr s'"
  shows "\<exists>q1 q2. s' = s\<lparr>crater_builder_queue := q1, interpolator_queue := q2\<rparr>"
  using assms unfolding generate_terrain_blocks_def bind_eq_Inr by auto

lemma gtb_total:
  assumes wf: "grid_wf s c"
  shows "\<exists>s'. generate_terrain_blocks s = Inr s'"
proof -
  let ?body = "\<lambda>grid_key q.
                bind (getitem (map_grid_block2coords s) grid_key)
                  (\<lambda>grid_coords.
                     bind (block_state (block_grid_tracker s) (store s) grid_coords)
                       (\<lambda>b. Inr (if \<not> has_crater_data b then fst q @ [grid_key] else fst q,
                                  if \<not> has_terrain_data b then snd q @ [grid_key] else snd q)))"
  have "\<exists>q. for_each ?body (map fst (map_grid_block2coords s))
               (crater_builder_queue s, interpolator_queue s) = Inr q \<and> True"
  proof (rule for_each_total)
    fix x and a :: "coord list \<times> coord list"
    assume "x \<in> set (map fst (map_grid_block2coords s))"
    from map_of_key_Some[OF this] obtain k2 where k2: "map_of (map_grid_block2coords s) x = Some k2"
      by blast
    from grid_wf_map_ref[OF wf k2] obtain r where "map_of (block_grid_tracker s) k2 = Some r"
      by blast
    with k2 show "\<exists>b. ?body x a = Inr b \<and> True"
      by (simp add: getitem_Some block_state_def)
  qed simp
  then show ?thesis by (auto simp: generate_terrain_blocks_def)
qed


lemma grid_wf_frame:
  assumes "settings s' = settings s" "block_grid_tracker s' = block_grid_tracker s"
    "map_grid_block2coords s' = map_grid_block2coords s" "length (store s') = length (store s)"
  shows "grid_wf s' c = grid_wf s c"
  using assms by (simp add: grid_wf_def)

lemma collect_block_frame:
  assumes "collect_block set_flag offset res s = Inr s'"
    and "\<And>tr st k v st'. set_flag tr st k v = Inr st' \<Longrightarrow> length st' = length st"
  shows "settings s' = settings s \<and> block_grid_tracker s' = block_grid_tracker s
         \<and> map_grid_block2coords s' = map_grid_block2coords s
         \<and> current_block_coord s' = current_block_coord s
         \<and> sim_is_warm s' = sim_is_warm s
         \<and> length (store s') = length (store s)"
proof -
  from assms(1) obtain d st where
    "set_flag (block_grid_tracker s) (store s)
       (the (map_of (map_grid_block2coords s) (fst res))) True = Inr st"
    "s' = s\<lparr>high_res_dem := d, store := st\<rparr>"
    unfolding collect_block_def Let_def bind_eq_Inr getitem_eq_Inr by auto
  with assms(2) show ?thesis by auto
qed

lemma set_flag_length:
  "set_has_crater_data tr st k v = Inr st' \<Longrightarrow> length st' = length st"
  "set_has_terrain_data tr st k v = Inr st' \<Longrightarrow> length st' = length st"
  by (auto simp: set_flag_results)

lemma collect_frame:
  assumes "collect_terrain_data cr tr s = Inr s'"
  shows "frame_ok s s'"
proof -
  from assms obtain off s1 where
    l1: "for_each (collect_block set_has_crater_data off) cr s = Inr s1" and
    l2: "for_each (collect_block set_has_terrain_data off) tr s1 = Inr s'"
    by (auto simp: collect_terrain_data_def Let_def bind_eq_Inr)
  have f1: "frame_ok s s1"
  proof (rule for_each_invariant[OF l1, of "frame_ok s"])
    show "frame_ok s s" by (simp add: frame_ok_def)
  next
    fix x a b assume "frame_ok s a" "collect_block set_has_crater_data off x a = Inr b"
    with collect_block_frame[OF this(2) set_flag_length(1)] show "frame_ok s b"
      by (simp add: frame_ok_def)
  qed
  show ?thesis
  proof (rule for_each_invariant[OF l2, of "frame_ok s"])
    show "frame_ok s s1" by (rule f1)
  next
    fix x a b assume "frame_ok s a" "collect_block set_has_terrain_data off x a = Inr b"
    with collect_block_frame[OF this(2) set_flag_length(2)] show "frame_ok s b"
      by (simp add: frame_ok_def)
  qed
qed

lemma frame_ok_wf: "frame_ok s s' \<Longrightarrow> grid_wf s c \<Longrightarrow> grid_wf s' c"
  using grid_wf_frame[of s' s c] by (simp add: frame_ok_def)

subsection \<open>\<^verbatim>\<open>shift\<close> and the reachable states\<close>

lemma shift_Inr:
  assumes sh: "shift db p s = Inr s'" and wf: "grid_wf s c0"
  shows "\<exists>nb px ntr nmp st.
      cast_coordinates_to_block_space (settings s) p = Inr nb
    \<and> pixel_shift_of (settings s) nb (current_block_coord s) = Inr px
    \<and> shift_inv (settings s) (block_grid_tracker s) (map_grid_block2coords s) nb (store s)
         (grid_cells (settings s)) (ntr, nmp, st)
    \<and> shift_dem px (high_res_dem s) = Inr (high_res_dem s')
    \<and> settings s' = settings s \<and> block_grid_tracker s' = ntr \<and> map_grid_block2coords s' = nmp
    \<and> length (store s') = length st
    \<and> (\<forall>r. has_terrain_data (store s' ! r) = has_terrain_data (st ! r))
    \<and> current_block_coord s' = nb \<and> sim_is_warm s' = sim_is_warm s"
proof -
  from sh obtain nb px s1 d s2 where
    c: "cast_coordinates_to_block_space (settings s) p = Inr nb" and
    p: "pixel_shift_of (settings s) nb (current_block_coord s) = Inr px" and
    g: "shift_block_grid nb s = Inr s1" and
    d: "shift_dem px (high_res_dem s1) = Inr d" and
    m: "(if generate_craters (settings s1)
           then generate_craters_metadata db
                  (s1\<lparr>high_res_dem := d, current_block_coord := nb\<rparr>)
           else Inr (s1\<lparr>high_res_dem := d, current_block_coord := nb\<rparr>)) = Inr s2" and
    t: "generate_terrain_blocks s2 = Inr s'"
    unfolding shift_def bind_eq_Inr by blast
  from shift_block_grid_spec[OF wf, of nb] g obtain ntr nmp st where
    s1: "s1 = s\<lparr>block_grid_tracker := ntr, map_grid_block2coords := nmp, store := st\<rparr>" and
    inv: "shift_inv (settings s) (block_grid_tracker s) (map_grid_block2coords s) nb (store s)
         (grid_cells (settings s)) (ntr, nmp, st)"
    by auto
  let ?s1' = "s1\<lparr>high_res_dem := d, current_block_coord := nb\<rparr>"
  have "\<exists>st2. s2 = ?s1'\<lparr>store := st2\<rparr> \<and> length st2 = length st
           \<and> (\<forall>r. has_terrain_data (st2 ! r) = has_terrain_data (st ! r))"
  proof (cases "generate_craters (settings s1)")
    case True
    with m have "generate_craters_metadata db ?s1' = Inr s2" by simp
    from gcm_frame[OF this] show ?thesis by (simp add: s1)
  next
    case False
    with m have "s2 = ?s1'" by simp
    then have "s2 = ?s1'\<lparr>store := st\<rparr>" by (simp add: s1)
    then show ?thesis by blast
  qed
  then obtain st2 where
    s2: "s2 = ?s1'\<lparr>store := st2\<rparr>" "length st2 = length st"
        "\<forall>r. has_terrain_data (st2 ! r) = has_terrain_data (st ! r)"
    by blast
  from gtb_frame[OF t] obtain q1 q2 where
    s': "s' = s2\<lparr>crater_builder_queue := q1, interpolator_queue := q2\<rparr>" by blast
  have "shift_dem px (high_res_dem s) = Inr (high_res_dem s')"
    using d by (simp add: s' s2 s1)
  moreover have "settings s' = settings s" "block_grid_tracker s' = ntr"
    "map_grid_block2coords s' = nmp" "store s' = st2" "current_block_coord s' = nb"
    "sim_is_warm s' = sim_is_warm s"
    by (simp_all add: s' s2 s1)
  ultimately show ?thesis using c p inv s2(2,3) by (intro exI[of _ nb] exI[of _ px] exI[of _ ntr] exI[of _ nmp] exI[of _ st]) simp
qed

lemma shift_wf:
  assumes sh: "shift db p s = Inr s'" and wf: "grid_wf s c0"
  shows "grid_wf s' (current_block_coord s')"
proof -
  from shift_Inr[OF sh wf] obtain nb ntr nmp st where
    inv: "shift_inv (settings s) (block_grid_tracker s) (map_grid_block2coords s) nb (store s)
         (grid_cells (settings s)) (ntr, nmp, st)" and
    f: "settings s' = settings s" "block_grid_tracker s' = ntr" "map_grid_block2coords s' = nmp"
       "length (store s') = length st" "current_block_coord s' = nb"
    by blast
  let ?s1 = "s\<lparr>block_grid_tracker := ntr, map_grid_block2coords := nmp, store := st\<rparr>"
  from shift_inv_wf[OF wf inv] have "grid_wf ?s1 nb" .
  moreover have "grid_wf s' nb = grid_wf ?s1 nb"
    by (rule grid_wf_frame) (simp_all add: f)
  ultimately show ?thesis by (simp add: f)
qed

lemma shift_total:
  assumes wf: "grid_wf s c0"
    and c: "cast_coordinates_to_block_space (settings s) p = Inr nb"
    and p: "pixel_shift_of (settings s) nb (current_block_coord s) = Inr px"
  shows "\<exists>s'. shift db p s = Inr s'"
proof -
  from shift_block_grid_spec[OF wf, of nb] obtain ntr nmp st where
    g: "shift_block_grid nb s =
          Inr (s\<lparr>block_grid_tracker := ntr, map_grid_block2coords := nmp, store := st\<rparr>)" and
    inv: "shift_inv (settings s) (block_grid_tracker s) (map_grid_block2coords s) nb (store s)
         (grid_cells (settings s)) (ntr, nmp, st)"
    by blast
  let ?s1 = "s\<lparr>block_grid_tracker := ntr, map_grid_block2coords := nmp, store := st\<rparr>"
  have wf1: "grid_wf ?s1 nb" by (rule shift_inv_wf[OF wf inv])
  from shift_dem_total[of px "high_res_dem ?s1"] obtain d where
    d: "shift_dem px (high_res_dem ?s1) = Inr d" by blast
  let ?s1' = "?s1\<lparr>high_res_dem := d, current_block_coord := nb\<rparr>"
  have wf1': "grid_wf ?s1' nb"
    using wf1 grid_wf_frame[of ?s1' ?s1 nb] by simp
  obtain s2 where m: "(if generate_craters (settings ?s1)
           then generate_craters_metadata db ?s1' else Inr ?s1') = Inr s2"
    and wf2: "grid_wf s2 nb"
  proof (cases "generate_craters (settings ?s1)")
    case True
    from gcm_total[OF wf1', of db] obtain s2 where g2: "generate_craters_metadata db ?s1' = Inr s2"
      by blast
    from gcm_frame[OF g2] obtain st2 where "s2 = ?s1'\<lparr>store := st2\<rparr>" "length st2 = length st"
      by auto
    then have "grid_wf s2 nb" using wf1' grid_wf_frame[of s2 ?s1' nb] by simp
    with True g2 that show ?thesis by simp
  next
    case False
    with wf1' that show ?thesis by simp
  qed
  from gtb_total[OF wf2] obtain s' where "generate_terrain_blocks s2 = Inr s'" by blast
  with c p g d m show ?thesis unfolding shift_def by (simp)
qed

lemma instantiate_frame:
  assumes "instantiate_high_res_dem s = Inr s'"
  shows "\<exists>d. s' = s\<lparr>high_res_dem := d\<rparr>"
  using assms by (auto simp: instantiate_high_res_dem_def Let_def bind_eq_Inr split: if_splits)

lemma init_wf:
  assumes "init cfg = Inr s"
  shows "grid_wf s (0, 0) \<and> current_block_coord s = (0, 0) \<and> settings s = cfg
         \<and> \<not> sim_is_warm s"
proof -
  let ?s0 = "\<lparr>settings = cfg, current_block_coord = (0, 0), sim_is_warm = False,
              block_grid_tracker = [], map_grid_block2coords = [], store = [],
              high_res_dem = \<lparr>shape0 = 0, shape1 = 0, cell = (\<lambda>i j. 0)\<rparr>,
              crater_builder_queue = [], interpolator_queue = []\<rparr>"
  from assms obtain s1 where b: "build_block_grid ?s0 = Inr s1"
    and i: "instantiate_high_res_dem s1 = Inr s"
    unfolding init_def bind_eq_Inr by blast
  from build_block_grid_wf[of ?s0] b obtain tr mp st where
    s1: "s1 = ?s0\<lparr>block_grid_tracker := tr, map_grid_block2coords := mp, store := st\<rparr>" and
    wf: "grid_wf s1 (current_block_coord ?s0)"
    by auto
  from instantiate_frame[OF i] obtain d where s: "s = s1\<lparr>high_res_dem := d\<rparr>" by blast
  have "grid_wf s (0, 0)" using wf grid_wf_frame[of s s1 "(0, 0)"] by (simp add: s)
  then show ?thesis by (simp add: s s1)
qed

lemma update_wf:
  assumes u: "update_high_res_dem db p s = Inr (b, s')"
    and wf: "grid_wf s (current_block_coord s)"
  shows "grid_wf s' (current_block_coord s')"
proof -
  from u obtain bc us where
    c: "cast_coordinates_to_block_space (settings s) p = Inr bc" and
    w: "(if \<not> sim_is_warm s
           then bind (shift db (PyInt (fst bc), PyInt (snd bc)) s)
                  (\<lambda>s1. Inr (True, s1\<lparr>sim_is_warm := True\<rparr>))
           else Inr (False, s)) = Inr us" and
    r: "(if current_block_coord (snd us) \<noteq> bc
         then bind (shift db p (snd us)) (\<lambda>s2. Inr (True, s2))
         else Inr us) = Inr (b, s')"
    unfolding update_high_res_dem_def bind_eq_Inr by blast
  have wf1: "grid_wf (snd us) (current_block_coord (snd us))"
  proof (cases "sim_is_warm s")
    case True
    with w wf show ?thesis by auto
  next
    case False
    with w obtain s1 where s1: "shift db (PyInt (fst bc), PyInt (snd bc)) s = Inr s1"
      and us: "us = (True, s1\<lparr>sim_is_warm := True\<rparr>)"
      by (auto simp: bind_eq_Inr)
    from shift_wf[OF s1 wf] have "grid_wf s1 (current_block_coord s1)" .
    then show ?thesis
      using grid_wf_frame[of "s1\<lparr>sim_is_warm := True\<rparr>" s1 "current_block_coord s1"]
      by (simp add: us)
  qed
  show ?thesis
  proof (cases "current_block_coord (snd us) \<noteq> bc")
    case True
    with r obtain s2 where "shift db p (snd us) = Inr s2" "s' = s2"
      by (auto simp: bind_eq_Inr)
    with shift_wf[OF _ wf1] show ?thesis by simp
  next
    case False
    with r have "s' = snd us" by auto
    with wf1 show ?thesis by simp
  qed
qed

lemma reachable_wf: "reachable s \<Longrightarrow> grid_wf s (current_block_coord s)"
proof (induction rule: reachable.induct)
  case (r_init cfg s)
  from init_wf[OF r_init] show ?case by simp
next
  case (r_update s db p u s')
  from update_wf[OF r_update(2) r_update(3)] show ?case .
next
  case (r_shift s db p s')
  from shift_wf[OF r_shift(2) r_shift(3)] show ?case .
next
  case (r_collect s cr tr s')
  from collect_frame[OF r_collect(2)] have f: "frame_ok s s'" .
  from frame_ok_wf[OF f r_collect(3)] f show ?case by (simp add: frame_ok_def)
qed

subsection \<open>The example runs\<close>

lemma isl_projr: "\<not> isl m \<Longrightarrow> m = Inr (projr m)"
  by (cases m) simp_all

lemma example_init: "init example_cfg = Inr example_state"
proof -
  have "\<not> isl (init example_cfg)" by code_simp
  then show ?thesis unfolding example_state_def by (rule isl_projr)
qed

lemma example_state_reachable: "reachable example_state"
  using example_init by (rule r_init)


lemma example_shift: "shift no_db (PyInt 50, PyInt 0) example_state = Inr example_shifted"
proof -
  have "\<not> isl (shift no_db (PyInt 50, PyInt 0) example_state)"
    unfolding example_state_def by code_simp
  then show ?thesis unfolding example_shifted_def by (rule isl_projr)
qed

lemma example_shifted_reachable: "reachable example_shifted"
  using example_state_reachable example_shift by (rule r_shift)

lemma example_update:
  "update_high_res_dem no_db (PyInt 0, PyInt 0) example_state = Inr (True, example_warm)"
proof -
  have "\<not> isl (update_high_res_dem no_db (PyInt 0, PyInt 0) example_state)"
    unfolding example_state_def by code_simp
  moreover have "fst (projr (update_high_res_dem no_db (PyInt 0, PyInt 0) example_state)) = True"
    unfolding example_state_def by code_simp
  ultimately show ?thesis
    unfolding example_warm_def
    by (metis prod.collapse sum.collapse(2))
qed

lemma example_warm_reachable: "reachable example_warm"
  using example_state_reachable example_update by (rule r_update)

lemma example_collect:
  "collect_terrain_data [] [((0, 0), example_raster), ((50, 0), example_raster)] example_warm
   = Inr example_collected"
proof -
  have "\<not> isl (collect_terrain_data [] [((0, 0), example_raster), ((50, 0), example_raster)]
                 example_warm)"
    unfolding example_warm_def example_state_def by code_simp
  then show ?thesis unfolding example_collected_def by (rule isl_projr)
qed

lemma example_collected_reachable: "reachable example_collected"
  using example_warm_reachable example_collect by (rule r_collect)

lemma example_collected_eval:
  "map_sum id
     (\<lambda>s. (num_blocks (settings s), block_size (settings s),
           resolution (settings s) = double (1 / 20), generate_craters (settings s),
           current_block_coord s, sim_is_warm s,
           shape0 (high_res_dem s), shape1 (high_res_dem s),
           cell (high_res_dem s) 1000 1000, cell (high_res_dem s) 1500 1500,
           cell (high_res_dem s) 2980 1000, cell (high_res_dem s) 1200 1000,
           is_map_done s,
           map (\<lambda>(slot, r). (slot, is_padding (store s ! r), block_ready (store s ! r)))
             (block_grid_tracker s),
           map_of (block_grid_tracker s) (0, 0), has_terrain_data (store s ! 4)))
     (collect_terrain_data [] [((0, 0), example_raster), ((50, 0), example_raster)]
        example_warm) =
   Inr (0, 50, True, False, (0, 0), True, 3000, 3000, 1, 501, 981, 201, Inr False,
        [((- 50, - 50), True, False), ((- 50, 0), True, False), ((- 50, 50), True, False),
         ((0, - 50), True, False), ((0, 0), False, True), ((0, 50), True, False),
         ((50, - 50), True, False), ((50, 0), True, True), ((50, 50), True, False)],
        Some 4, True)"
  unfolding example_warm_def example_state_def by code_simp

lemma example_collected_facts:
  "settings example_collected = example_cfg"
  "current_block_coord example_collected = (0, 0)"
  "sim_is_warm example_collected"
  "shape0 (high_res_dem example_collected) = 3000"
  "shape1 (high_res_dem example_collected) = 3000"
  "cell (high_res_dem example_collected) 1000 1000 = 1"
  "cell (high_res_dem example_collected) 1500 1500 = 501"
  "cell (high_res_dem example_collected) 2980 1000 = 981"
  "cell (high_res_dem example_collected) 1200 1000 = 201"
  "is_map_done example_collected = Inr False"
  "map (\<lambda>(slot, r). (slot, is_padding (store example_collected ! r),
                        block_ready (store example_collected ! r)))
       (block_grid_tracker example_collected) =
     [((- 50, - 50), True, False), ((- 50, 0), True, False), ((- 50, 50), True, False),
      ((0, - 50), True, False), ((0, 0), False, True), ((0, 50), True, False),
      ((50, - 50), True, False), ((50, 0), True, True), ((50, 50), True, False)]"
  "map_of (block_grid_tracker example_collected) (0, 0) = Some 4"
  "has_terrain_data (store example_collected ! 4)"
  using example_collected_eval unfolding example_collect by (simp_all add: example_cfg_def)

subsection \<open>The two maps of the grid\<close>

lemma grid_wf_bijection:
  assumes wf: "grid_wf s c"
  shows "grid_bijection s c"
proof -
  let ?cfg = "settings s"
  let ?mp = "map_grid_block2coords s"
  note w1 = wf[unfolded grid_wf_def, THEN conjunct1, rule_format]
  note w2 = wf[unfolded grid_wf_def, THEN conjunct2, THEN conjunct1]
  have key: "k = (fst slot + fst c, snd slot + snd c)" if "map_of ?mp k = Some slot" for k slot
  proof -
    from grid_wf_map[OF wf that] obtain xy where "k = abs_of ?cfg c xy" "slot = slot_of ?cfg xy"
      by blast
    then show ?thesis by (simp add: abs_slot)
  qed
  have a: "\<exists>!k. map_of ?mp k = Some slot" if "slot \<in> fst ` set (block_grid_tracker s)" for slot
  proof -
    from that w2 obtain xy where xy: "xy \<in> set (grid_cells ?cfg)" "slot = slot_of ?cfg xy"
      by auto
    then have "map_of ?mp (abs_of ?cfg c xy) = Some slot" using w1 by blast
    moreover have "k = k'" if "map_of ?mp k = Some slot" "map_of ?mp k' = Some slot" for k k'
      using key[OF that(1)] key[OF that(2)] by simp
    ultimately show ?thesis by blast
  qed
  have b: "\<exists>slot \<in> fst ` set (block_grid_tracker s). map_of ?mp k = Some slot"
    if "k \<in> fst ` set ?mp" for k
  proof -
    from that have "k \<in> set (map fst ?mp)" by simp
    from map_of_key_Some[OF this] obtain v where v: "map_of ?mp k = Some v" by blast
    from grid_wf_map[OF wf v] w2 have "v \<in> fst ` set (block_grid_tracker s)" by auto
    with v show ?thesis by blast
  qed
  show ?thesis unfolding grid_bijection_def
    by (intro conjI ballI allI impI) (use a b key in \<open>simp_all only:\<close>)
qed

text \<open>
  Claim C9. After \<^verbatim>\<open>build_block_grid\<close>, and after \<^verbatim>\<open>shift_block_grid\<close> called in any
  reachable state, the absolute-to-relative map is a bijection between the absolute block
  coordinates and the relative slots of the tracker, and every absolute coordinate is its
  slot plus the center (the current block coordinate for the build, the argument for the
  shift).
\<close>

theorem grid_maps_in_bijection:
  "(\<exists>s'. build_block_grid s = Inr s' \<and> grid_bijection s' (current_block_coord s))
   \<and> (reachable s \<longrightarrow> (\<exists>s'. shift_block_grid c s = Inr s' \<and> grid_bijection s' c))"
proof
  from build_block_grid_wf[of s] obtain s' where
    "build_block_grid s = Inr s'" "grid_wf s' (current_block_coord s)" by blast
  with grid_wf_bijection show "\<exists>s'. build_block_grid s = Inr s' \<and> grid_bijection s' (current_block_coord s)"
    by blast
next
  show "reachable s \<longrightarrow> (\<exists>s'. shift_block_grid c s = Inr s' \<and> grid_bijection s' c)"
  proof
    assume "reachable s"
    then have wf: "grid_wf s (current_block_coord s)" by (rule reachable_wf)
    from shift_block_grid_spec[OF wf, of c] obtain ntr nmp st where
      r: "shift_block_grid c s =
             Inr (s\<lparr>block_grid_tracker := ntr, map_grid_block2coords := nmp, store := st\<rparr>)" and
      inv: "shift_inv (settings s) (block_grid_tracker s) (map_grid_block2coords s) c (store s)
                (grid_cells (settings s)) (ntr, nmp, st)"
      by blast
    from grid_wf_bijection[OF shift_inv_wf[OF wf inv]] r
    show "\<exists>s'. shift_block_grid c s = Inr s' \<and> grid_bijection s' c" by blast
  qed
qed

theorem grid_maps_in_bijection_witness:
  "reachable example_state
   \<and> (\<exists>s'. shift_block_grid (50, 0) example_state = Inr s' \<and> grid_bijection s' (50, 0))"
  using grid_maps_in_bijection[of example_state "(50, 0)"] example_state_reachable by simp

subsection \<open>\<^verbatim>\<open>shift_block_grid\<close>: reuse of block states\<close>






subsection \<open>\<^verbatim>\<open>shift_block_grid\<close>: the padding flags\<close>

text \<open>
  Claim C5 fails on the code. \<^verbatim>\<open>shift_block_grid\<close> writes the padding flag through
  \<^verbatim>\<open>self.block_grid_tracker\<close>, which is still the old tracker, so the flags of the new
  tracker are those of the previous window. In the example, after the shift to \<open>(50, 0)\<close>
  the ring slot \<open>(- 50, 0)\<close> is not marked, the inner slot \<open>(0, 0)\<close> is, and the three new
  ring slots \<open>(50, _)\<close> are not; the second list is what the claim requires.
\<close>

theorem shift_block_grid_padding_flags_stale:
  "map_sum id
     (\<lambda>s'. map (\<lambda>xy. (slot_of example_cfg xy,
                        map_option (\<lambda>r. is_padding (store s' ! r))
                          (map_of (block_grid_tracker s') (slot_of example_cfg xy))))
               (grid_cells example_cfg))
     (shift_block_grid (50, 0) example_state) =
   Inr [((- 50, - 50), Some True), ((- 50, 0), Some False), ((- 50, 50), Some True),
        ((0, - 50), Some True), ((0, 0), Some True), ((0, 50), Some True),
        ((50, - 50), Some False), ((50, 0), Some False), ((50, 50), Some False)]
   \<and> map (\<lambda>xy. (slot_of example_cfg xy, Some (on_ring example_cfg xy))) (grid_cells example_cfg) =
       [((- 50, - 50), Some True), ((- 50, 0), Some True), ((- 50, 50), Some True),
        ((0, - 50), Some True), ((0, 0), Some False), ((0, 50), Some True),
        ((50, - 50), Some True), ((50, 0), Some True), ((50, 50), Some True)]"
  unfolding example_state_def by code_simp

lemma shift_dem_zero_identity:
  "\<exists>d'. shift_dem (0, 0) d = Inr d' \<and> shape0 d' = shape0 d \<and> shape1 d' = shape1 d
        \<and> (\<forall>i < shape0 d. \<forall>j < shape1 d. cell d' i j = cell d i j)"
proof -
  have "(0::int) \<le> int (shape0 d)" "(0::int) \<le> int (shape1 d)" by simp_all
  from shift_dem_move[OF this] obtain d' where
    r: "shift_dem (0, 0) d = Inr d'" "shape0 d' = shape0 d" "shape1 d' = shape1 d" and
    c: "\<And>i j. i < shape0 d \<Longrightarrow> j < shape1 d \<Longrightarrow> cell d' i j = shifted_cell d (0, 0) i j"
    by blast
  have "cell d' i j = cell d i j" if "i < shape0 d" "j < shape1 d" for i j
    using c[OF that] that by (simp add: shifted_cell_def)
  with r show ?thesis by blast
qed

lemma map_of_eqI:
  assumes "\<And>v. map_of a k = Some v \<longleftrightarrow> map_of b k = Some v"
  shows "map_of a k = map_of b k"
proof (cases "map_of a k")
  case None
  show ?thesis
  proof (cases "map_of b k")
    case (Some v)
    with assms[of v] None show ?thesis by simp
  qed (simp add: None)
next
  case (Some v)
  with assms[of v] show ?thesis by simp
qed

lemma shift_same_center_keeps_objects:
  assumes "reachable s"
  shows "\<exists>s'. shift_block_grid (current_block_coord s) s = Inr s'
           \<and> (\<forall>k. map_of (map_grid_block2coords s') k = map_of (map_grid_block2coords s) k)
           \<and> (\<forall>xy \<in> set (grid_cells (settings s)).
                 map_of (block_grid_tracker s') (slot_of (settings s) xy) =
                 map_of (block_grid_tracker s) (slot_of (settings s) xy))
           \<and> (\<forall>r < length (store s). same_readiness (store s' ! r) (store s ! r))"
proof -
  let ?cfg = "settings s" and ?c = "current_block_coord s"
  from assms have wf: "grid_wf s ?c" by (rule reachable_wf)
  note w1 = wf[unfolded grid_wf_def, THEN conjunct1, rule_format]
  from shift_block_grid_spec[OF wf, of ?c] obtain ntr nmp st where
    r: "shift_block_grid ?c s =
           Inr (s\<lparr>block_grid_tracker := ntr, map_grid_block2coords := nmp, store := st\<rparr>)" and
    inv: "shift_inv ?cfg (block_grid_tracker s) (map_grid_block2coords s) ?c (store s)
              (grid_cells ?cfg) (ntr, nmp, st)"
    by blast
  note inv' = inv[unfolded shift_inv_def prod.case]
  note i1 = inv'[THEN conjunct1, rule_format]
  note i3 = inv'[THEN conjunct2, THEN conjunct2, THEN conjunct1, rule_format]
  note i5 = inv'[THEN conjunct2, THEN conjunct2, THEN conjunct2, THEN conjunct2, THEN conjunct1, rule_format]
  have a: "map_of nmp k = map_of (map_grid_block2coords s) k" for k
    by (rule map_of_eqI) (simp only: i1 w1)
  have b: "map_of ntr (slot_of ?cfg xy) = map_of (block_grid_tracker s) (slot_of ?cfg xy)"
    if xy: "xy \<in> set (grid_cells ?cfg)" for xy
  proof -
    from xy have "map_of (map_grid_block2coords s) (abs_of ?cfg ?c xy) = Some (slot_of ?cfg xy)"
      using w1 by blast
    with i3[OF xy] show ?thesis by simp
  qed
  from r a b i5 show ?thesis by auto
qed

text \<open>
  Claim C10 fails on the code for the padding flag, by the defect of claim C5. The buffer
  part holds (\<open>shift_dem_zero_identity\<close>), and a shift to the current center keeps the
  map, the objects and their readiness flags (\<open>shift_same_center_keeps_objects\<close>). But in
  the example, once the window has moved to \<open>(50, 0)\<close>, a further \<^verbatim>\<open>shift_block_grid\<close> to
  the same center \<open>(50, 0)\<close> leaves every slot with the same object and changes the
  \<open>is_padding\<close> value of five of them (slots \<open>(- 50, 0)\<close>, \<open>(0, 0)\<close> and \<open>(50, _)\<close>).
\<close>

theorem shift_to_same_center_changes_padding_flags:
  "current_block_coord example_shifted = (50, 0)
   \<and> map (\<lambda>(slot, r). (slot, r, is_padding (store example_shifted ! r)))
        (block_grid_tracker example_shifted) =
       [((- 50, - 50), 3, True), ((- 50, 0), 4, False), ((- 50, 50), 5, True),
        ((0, - 50), 6, True), ((0, 0), 7, True), ((0, 50), 8, True),
        ((50, - 50), 9, False), ((50, 0), 10, False), ((50, 50), 11, False)]
   \<and> map_sum id
        (\<lambda>s'. map (\<lambda>(slot, r). (slot, r, is_padding (store s' ! r))) (block_grid_tracker s'))
        (shift_block_grid (50, 0) example_shifted) =
      Inr [((- 50, - 50), 3, True), ((- 50, 0), 4, True), ((- 50, 50), 5, True),
           ((0, - 50), 6, True), ((0, 0), 7, False), ((0, 50), 8, True),
           ((50, - 50), 9, True), ((50, 0), 10, True), ((50, 50), 11, True)]"
  unfolding example_shifted_def example_state_def by code_simp

subsection \<open>\<^verbatim>\<open>is_map_done\<close>\<close>

lemma comprehension_Inr:
  assumes "\<And>x. x \<in> set xs \<Longrightarrow> f x = Inr (g x)"
  shows "comprehension f xs = Inr (map g xs)"
  using assms by (induction xs) simp_all

lemma grid_wf_values:
  assumes wf: "grid_wf s c"
  shows "snd ` set (map_grid_block2coords s) = fst ` set (block_grid_tracker s)"
proof -
  let ?cfg = "settings s" and ?mp = "map_grid_block2coords s"
  note w1 = wf[unfolded grid_wf_def, THEN conjunct1, rule_format]
  note w2 = wf[unfolded grid_wf_def, THEN conjunct2, THEN conjunct1]
  note w4 = wf[unfolded grid_wf_def, THEN conjunct2, THEN conjunct2, THEN conjunct2]
  have "snd ` set ?mp = slot_of ?cfg ` set (grid_cells ?cfg)"
  proof (intro set_eqI iffI)
    fix v assume "v \<in> snd ` set ?mp"
    then obtain k where "(k, v) \<in> set ?mp" by force
    with w4 have "map_of ?mp k = Some v" by simp
    from grid_wf_map[OF wf this] show "v \<in> slot_of ?cfg ` set (grid_cells ?cfg)" by blast
  next
    fix v assume "v \<in> slot_of ?cfg ` set (grid_cells ?cfg)"
    then obtain xy where xy: "xy \<in> set (grid_cells ?cfg)" "v = slot_of ?cfg xy" by blast
    then have "map_of ?mp (abs_of ?cfg c xy) = Some v" using w1 by blast
    from map_of_SomeD[OF this] show "v \<in> snd ` set ?mp" by force
  qed
  with w2 show ?thesis by simp
qed

text \<open>
  Claim C1 (amended). In every reachable state \<^verbatim>\<open>is_map_done\<close> returns normally, and
  returns true exactly when every block of the tracker, padding blocks included, has all
  three readiness flags true.
\<close>

theorem is_map_done_all_blocks:
  assumes "reachable s"
  shows "is_map_done s =
           Inr (\<forall>slot \<in> fst ` set (block_grid_tracker s).
                  \<exists>r. map_of (block_grid_tracker s) slot = Some r \<and> block_ready (store s ! r))"
proof -
  from assms have wf: "grid_wf s (current_block_coord s)" by (rule reachable_wf)
  let ?tr = "block_grid_tracker s"
  let ?f = "\<lambda>coords. bind (block_state ?tr (store s) coords)
                  (\<lambda>b. Inr (has_crater_metadata b \<and> has_crater_data b \<and> has_terrain_data b))"
  let ?g = "\<lambda>slot. \<exists>r. map_of ?tr slot = Some r \<and> block_ready (store s ! r)"
  have vals: "set (map snd (map_grid_block2coords s)) = fst ` set ?tr"
    using grid_wf_values[OF wf] by simp
  have "comprehension ?f (map snd (map_grid_block2coords s)) =
          Inr (map ?g (map snd (map_grid_block2coords s)))"
  proof (rule comprehension_Inr)
    fix x assume "x \<in> set (map snd (map_grid_block2coords s))"
    with vals have "x \<in> fst ` set ?tr" by simp
    then have "x \<in> set (map fst ?tr)" by simp
    from map_of_key_Some[OF this] obtain r where "map_of ?tr x = Some r" by blast
    then show "?f x = Inr (?g x)"
      by (simp add: block_state_def getitem_Some block_ready_def)
  qed
  then have "is_map_done s = Inr (list_all (\<lambda>f. f) (map ?g (map snd (map_grid_block2coords s))))"
    by (simp add: is_map_done_def)
  also have "list_all (\<lambda>f. f) (map ?g (map snd (map_grid_block2coords s)))
               = (\<forall>slot \<in> set (map snd (map_grid_block2coords s)). ?g slot)"
    by (simp add: list_all_iff)
  finally show ?thesis unfolding vals .
qed

theorem is_map_done_all_blocks_witness:
  "reachable example_collected
   \<and> is_map_done example_collected =
       Inr (\<forall>slot \<in> fst ` set (block_grid_tracker example_collected).
              \<exists>r. map_of (block_grid_tracker example_collected) slot = Some r
                  \<and> block_ready (store example_collected ! r))"
  using is_map_done_all_blocks[OF example_collected_reachable] example_collected_reachable
  by simp

text \<open>
  Claim C1 as stated fails: padding blocks count. In the example, once the only usable
  block \<open>(0, 0)\<close> and one padding block have their terrain, every block that is not
  padding is ready (third component), yet \<^verbatim>\<open>is_map_done\<close> is false, because padding
  blocks are still waiting.
\<close>

theorem is_map_done_counts_padding_blocks:
  "is_map_done example_collected = Inr False
   \<and> map (\<lambda>(slot, r). (slot, is_padding (store example_collected ! r),
                        block_ready (store example_collected ! r)))
       (block_grid_tracker example_collected) =
     [((- 50, - 50), True, False), ((- 50, 0), True, False), ((- 50, 50), True, False),
      ((0, - 50), True, False), ((0, 0), False, True), ((0, 50), True, False),
      ((50, - 50), True, False), ((50, 0), True, True), ((50, 50), True, False)]"
  by (simp add: example_collected_facts)

subsection \<open>\<^verbatim>\<open>get_height\<close>\<close>

lemma index_axis_cases:
  "index_axis n i =
     (if i < - int n \<or> int n \<le> i then Inl IndexError
      else if i < 0 then Inr (nat (i + int n)) else Inr (nat i))"
  by (simp add: index_axis_def)

lemma example_pixels:
  "get_pixel example_collected (PyInt 0, PyInt 0) = Inr (1000, 1000)"
  "get_pixel example_collected (PyFloat (double 0), PyFloat (double 0)) = Inr (1000, 1000)"
  "get_pixel example_collected (PyInt 100, PyInt 0) = Inr (3000, 1000)"
  "get_pixel example_collected (PyInt (- 51), PyInt 0) = Inr (- 20, 1000)"
  "get_pixel example_collected (PyFloat (double (- 51)), PyFloat (double 0)) = Inr (- 20, 1000)"
  "spec_get_pixel example_collected (PyInt 0, PyInt 0) = Inr (1500, 1500)"
  "get_pixel example_collected (PyFloat (double (1 / 20)), PyInt 0) = Inr (1000, 1000)"
  "get_pixel example_collected (PyFloat (double (- 1001 / 20)), PyInt 0) = Inr (0, 1000)"
  unfolding get_pixel_def get_coordinates_def spec_get_pixel_def example_collected_facts
  by code_simp+

text \<open>
  Claim C2 (amended). On each axis \<^verbatim>\<open>get_height\<close> computes, in Python's arithmetic and in
  this order, \<open>((p + (shape // 2) * resolution) - current_block_coord) - block_size // 2\<close>,
  divides the result by the resolution and truncates the quotient towards zero with
  \<^verbatim>\<open>int()\<close>; when both indices lie inside the buffer it returns the sample stored at
  that index, without interpolation.
\<close>

theorem get_height_reads_truncated_index:
  assumes "py_mul (PyInt (int (shape0 (high_res_dem s)) div 2))
             (PyFloat (resolution (settings s))) = Inr hx"
    and "py_add (fst p) hx = Inr x1"
    and "py_sub x1 (PyInt (fst (current_block_coord s))) = Inr x2"
    and "py_sub x2 (PyInt (block_size (settings s) div 2)) = Inr x"
    and "py_truediv x (PyFloat (resolution (settings s))) = Inr qx"
    and "py_int qx = Inr i"
    and "py_mul (PyInt (int (shape1 (high_res_dem s)) div 2))
             (PyFloat (resolution (settings s))) = Inr hy"
    and "py_add (snd p) hy = Inr y1"
    and "py_sub y1 (PyInt (snd (current_block_coord s))) = Inr y2"
    and "py_sub y2 (PyInt (block_size (settings s) div 2)) = Inr y"
    and "py_truediv y (PyFloat (resolution (settings s))) = Inr qy"
    and "py_int qy = Inr j"
    and "0 \<le> i" and "i < int (shape0 (high_res_dem s))"
    and "0 \<le> j" and "j < int (shape1 (high_res_dem s))"
  shows "get_height s p = Inr (cell (high_res_dem s) (nat i) (nat j))"
proof -
  have px: "get_pixel s p = Inr (i, j)"
    using assms(1-12) by (simp add: get_pixel_def get_coordinates_def)
  show ?thesis
    using assms(13-16) by (simp add: get_height_def px index_axis_cases)
qed

theorem get_height_reads_truncated_index_witness:
  "py_mul (PyInt (int (shape0 (high_res_dem example_collected)) div 2))
      (PyFloat (resolution (settings example_collected))) = Inr (PyFloat (Finite 75))
   \<and> py_add (PyFloat (double (1 / 20))) (PyFloat (Finite 75)) = Inr (PyFloat (double (1501 / 20)))
   \<and> py_sub (PyFloat (double (1501 / 20))) (PyInt (fst (current_block_coord example_collected)))
        = Inr (PyFloat (double (1501 / 20)))
   \<and> py_sub (PyFloat (double (1501 / 20))) (PyInt (block_size (settings example_collected) div 2))
        = Inr (PyFloat (Finite (3521955646092083 / 70368744177664)))
   \<and> py_truediv (PyFloat (Finite (3521955646092083 / 70368744177664)))
        (PyFloat (resolution (settings example_collected)))
        = Inr (PyFloat (Finite (8804889115230207 / 8796093022208)))
   \<and> py_int (PyFloat (Finite (8804889115230207 / 8796093022208))) = Inr 1000
   \<and> get_height example_collected (PyFloat (double (1 / 20)), PyInt 0) =
        Inr (cell (high_res_dem example_collected) 1000 1000)"
proof -
  note e = example_collected_facts(1-5)
  have h1: "py_mul (PyInt (int (shape0 (high_res_dem example_collected)) div 2))
      (PyFloat (resolution (settings example_collected))) = Inr (PyFloat (Finite 75))"
    unfolding e by code_simp
  have h2: "py_add (PyFloat (double (1 / 20))) (PyFloat (Finite 75))
              = Inr (PyFloat (double (1501 / 20)))"
    by code_simp
  have h3: "py_sub (PyFloat (double (1501 / 20))) (PyInt (fst (current_block_coord example_collected)))
              = Inr (PyFloat (double (1501 / 20)))"
    unfolding e by code_simp
  have h4: "py_sub (PyFloat (double (1501 / 20))) (PyInt (block_size (settings example_collected) div 2))
        = Inr (PyFloat (Finite (3521955646092083 / 70368744177664)))"
    unfolding e by code_simp
  have h5: "py_truediv (PyFloat (Finite (3521955646092083 / 70368744177664)))
        (PyFloat (resolution (settings example_collected)))
        = Inr (PyFloat (Finite (8804889115230207 / 8796093022208)))"
    unfolding e by code_simp
  have h6: "py_int (PyFloat (Finite (8804889115230207 / 8796093022208))) = Inr 1000"
    by code_simp
  have g1: "py_mul (PyInt (int (shape1 (high_res_dem example_collected)) div 2))
      (PyFloat (resolution (settings example_collected))) = Inr (PyFloat (Finite 75))"
    unfolding e by code_simp
  have g2: "py_add (PyInt 0) (PyFloat (Finite 75)) = Inr (PyFloat (Finite 75))"
    by code_simp
  have g3: "py_sub (PyFloat (Finite 75)) (PyInt (snd (current_block_coord example_collected)))
              = Inr (PyFloat (Finite 75))"
    unfolding e by code_simp
  have g4: "py_sub (PyFloat (Finite 75)) (PyInt (block_size (settings example_collected) div 2))
        = Inr (PyFloat (Finite 50))"
    unfolding e by code_simp
  have g5: "py_truediv (PyFloat (Finite 50)) (PyFloat (resolution (settings example_collected)))
        = Inr (PyFloat (Finite 1000))"
    unfolding e by code_simp
  have g6: "py_int (PyFloat (Finite 1000)) = Inr 1000"
    by code_simp
  have b: "(0::int) \<le> 1000" "1000 < int (shape0 (high_res_dem example_collected))"
    "1000 < int (shape1 (high_res_dem example_collected))"
    by (simp_all add: e)
  have h2': "py_add (fst (PyFloat (double (1 / 20)), PyInt 0)) (PyFloat (Finite 75))
              = Inr (PyFloat (double (1501 / 20)))"
    unfolding fst_conv by (rule h2)
  have g2': "py_add (snd (PyFloat (double (1 / 20)), PyInt 0)) (PyFloat (Finite 75))
              = Inr (PyFloat (Finite 75))"
    unfolding snd_conv by (rule g2)
  have "get_height example_collected (PyFloat (double (1 / 20)), PyInt 0) =
        Inr (cell (high_res_dem example_collected) (nat 1000) (nat 1000))"
    by (rule get_height_reads_truncated_index[OF h1 h2' h3 h4 h5 h6 g1 g2' g3 g4 g5 g6
          b(1) b(2) b(1) b(3)])
  then have r: "get_height example_collected (PyFloat (double (1 / 20)), PyInt 0) =
        Inr (cell (high_res_dem example_collected) 1000 1000)"
    by simp
  show ?thesis
    by (intro conjI) (fact h1 h2 h3 h4 h5 h6 r)+
qed

text \<open>
  Claim C2 as stated fails: the conversion does subtract half a block. In the example
  the query at the origin reads sample \<open>(1000, 1000)\<close>, the first sample of block \<open>(0, 0)\<close>
  as \<^verbatim>\<open>collect_terrain_data\<close> placed it (value 1), whereas the index of the claim is
  \<open>(1500, 1500)\<close>, the middle of that block (value 501).
\<close>

theorem get_height_subtracts_half_block:
  "get_pixel example_collected (PyInt 0, PyInt 0) = Inr (1000, 1000)
   \<and> get_height example_collected (PyInt 0, PyInt 0) = Inr 1
   \<and> spec_get_pixel example_collected (PyInt 0, PyInt 0) = Inr (1500, 1500)
   \<and> cell (high_res_dem example_collected) 1500 1500 = 501"
proof -
  have "get_height example_collected (PyInt 0, PyInt 0) = Inr 1"
    by (simp add: get_height_def example_pixels index_axis_def example_collected_facts)
  then show ?thesis by (simp add: example_pixels example_collected_facts)
qed

text \<open>
  Claim C3 (amended). Let \<open>(i, j)\<close> be the converted pixel index. If \<open>i\<close> or \<open>j\<close> is at
  least the size of its axis, or below minus that size, \<^verbatim>\<open>get_height\<close> fails with
  \<^verbatim>\<open>IndexError\<close>. Otherwise it returns a sample without error, a negative index being
  counted from the end of its axis.
\<close>

theorem get_height_index_error_or_wrap:
  assumes "get_pixel s p = Inr (i, j)"
  shows "(i < - int (shape0 (high_res_dem s)) \<or> int (shape0 (high_res_dem s)) \<le> i
           \<or> j < - int (shape1 (high_res_dem s)) \<or> int (shape1 (high_res_dem s)) \<le> j
          \<longrightarrow> get_height s p = Inl IndexError)
       \<and> (- int (shape0 (high_res_dem s)) \<le> i \<and> i < int (shape0 (high_res_dem s))
           \<and> - int (shape1 (high_res_dem s)) \<le> j \<and> j < int (shape1 (high_res_dem s))
          \<longrightarrow> get_height s p =
                Inr (cell (high_res_dem s)
                       (nat (if i < 0 then i + int (shape0 (high_res_dem s)) else i))
                       (nat (if j < 0 then j + int (shape1 (high_res_dem s)) else j))))"
proof (intro conjI impI)
  assume "i < - int (shape0 (high_res_dem s)) \<or> int (shape0 (high_res_dem s)) \<le> i
           \<or> j < - int (shape1 (high_res_dem s)) \<or> int (shape1 (high_res_dem s)) \<le> j"
  then show "get_height s p = Inl IndexError"
    by (auto simp: get_height_def assms index_axis_def)
next
  assume "- int (shape0 (high_res_dem s)) \<le> i \<and> i < int (shape0 (high_res_dem s))
           \<and> - int (shape1 (high_res_dem s)) \<le> j \<and> j < int (shape1 (high_res_dem s))"
  then show "get_height s p =
                Inr (cell (high_res_dem s)
                       (nat (if i < 0 then i + int (shape0 (high_res_dem s)) else i))
                       (nat (if j < 0 then j + int (shape1 (high_res_dem s)) else j)))"
    by (simp add: get_height_def assms index_axis_def)
qed

theorem get_height_index_error_or_wrap_witness:
  "get_pixel example_collected (PyInt 100, PyInt 0) = Inr (3000, 1000)
   \<and> get_height example_collected (PyInt 100, PyInt 0) = Inl IndexError
   \<and> get_pixel example_collected (PyInt (- 51), PyInt 0) = Inr (- 20, 1000)
   \<and> get_height example_collected (PyInt (- 51), PyInt 0) =
        Inr (cell (high_res_dem example_collected) 2980 1000)"
  using get_height_index_error_or_wrap[OF example_pixels(3)]
    get_height_index_error_or_wrap[OF example_pixels(4)] example_pixels
  by (simp add: example_collected_facts)

text \<open>
  Claim C3 as stated fails: an index below zero is not an error. In the example the
  position \<open>(- 51, 0)\<close>, one meter outside the buffer on the low side, converts to row
  \<open>- 20\<close>; \<^verbatim>\<open>get_height\<close> returns, without error, the sample of row 2980, twenty rows
  from the far end of the buffer, which belongs to block \<open>(50, 0)\<close> on the opposite side
  (value 981). The same holds for the floats \<open>(- 51.0, 0.0)\<close>.
\<close>

theorem get_height_wraps_negative_index:
  "get_pixel example_collected (PyInt (- 51), PyInt 0) = Inr (- 20, 1000)
   \<and> get_height example_collected (PyInt (- 51), PyInt 0) = Inr 981
   \<and> get_pixel example_collected (PyFloat (double (- 51)), PyFloat (double 0)) = Inr (- 20, 1000)
   \<and> get_height example_collected (PyFloat (double (- 51)), PyFloat (double 0)) = Inr 981
   \<and> cell (high_res_dem example_collected) 2980 1000 = 981"
  by (simp add: get_height_def example_pixels index_axis_def example_collected_facts)

end
